theory Spec2Isabelle
  imports Main "HOL-Library.AList" "HOL-Library.Sublist"
begin

section \<open>Python values\<close>

text \<open>
  The wrapper handles JSON-like Python objects. A \<open>dict\<close> keeps its keys in insertion
  order, so it is an association list: \<open>map_of\<close> is the lookup \<open>d[k]\<close>, and
  \<open>AList.update k v\<close> is the assignment \<open>d[k] = v\<close> (the value of an existing key is
  replaced where it stands, a new key goes to the end). Keys are strings, as in a
  standard-JSON document. \<open>PPath\<close> is a \<open>pathlib.Path\<close>, held as the string \<open>str()\<close>
  gives for it; it is the one value of the model that \<open>json.dump\<close> cannot serialise.
\<close>

datatype pyval =
    PNone
  | PBool bool
  | PInt int
  | PStr string
  | PPath string
  | PList "pyval list"
  | PDict "(string \<times> pyval) list"

type_synonym pydict = "(string \<times> pyval) list"

text \<open>A \<open>semantic_version.Version\<close>, held as the string \<open>str()\<close> gives for it.\<close>

type_synonym version = string

section \<open>Exceptions\<close>

text \<open>
  Each \<open>raise AuditlessSolcxException(...)\<close> of the source is one constructor of
  \<open>auditless_message\<close>, named after its message:
  \<^item> \<open>RemoteNotSupported\<close>: "We do not currently support remote file compilation in url=...";
  \<^item> \<open>CouldNotRead\<close>: "Could not read file contents at url=...";
  \<^item> \<open>BasePathProvided\<close>: "Base path has been provided for contracts. ...";
  \<^item> \<open>NoSourceFiles\<close>: "No source files specified when calling _compile_combined_json.";
  \<^item> \<open>YulNotSupported\<close>: "YUL optimization is not currently supported.";
  \<^item> \<open>UnsupportedArguments\<close>: "Unsupported arguments when running _create_combined_json ...".

  The other constructors of \<open>error\<close> are the built-in exceptions the Python raises on
  the way: \<open>OSError\<close> stands for whatever \<open>open\<close> or \<open>read\<close> raises, \<open>SolcxError\<close> for
  an exception of the \<open>solcx\<close> package.
\<close>

datatype auditless_message =
    RemoteNotSupported pyval
  | CouldNotRead pyval
  | BasePathProvided
  | NoSourceFiles
  | YulNotSupported
  | UnsupportedArguments pydict

datatype error =
    AuditlessSolcxException auditless_message
  | KeyError
  | IndexError
  | TypeError
  | AttributeError
  | OSError
  | SolcxError string

text \<open>The causes the specification names, and the message each one stands for.\<close>

datatype cause =
    MissingSource
  | UnsupportedConfiguration
  | UnsupportedRemoteSource
  | ReadFailure

fun cause_of :: "error \<Rightarrow> cause option" where
  "cause_of (AuditlessSolcxException (RemoteNotSupported u)) = Some UnsupportedRemoteSource"
| "cause_of (AuditlessSolcxException (CouldNotRead u)) = Some ReadFailure"
| "cause_of (AuditlessSolcxException BasePathProvided) = Some UnsupportedConfiguration"
| "cause_of (AuditlessSolcxException NoSourceFiles) = Some MissingSource"
| "cause_of (AuditlessSolcxException YulNotSupported) = Some UnsupportedConfiguration"
| "cause_of (AuditlessSolcxException (UnsupportedArguments kw)) = Some UnsupportedConfiguration"
| "cause_of e = None"

section \<open>Python operators on values\<close>

text \<open>\<open>needle in haystack\<close> on two strings: the needle occurs somewhere in the haystack.\<close>

fun contains :: "string \<Rightarrow> string \<Rightarrow> bool" where
  "contains needle [] = (needle = [])"
| "contains needle (c # cs) = (prefix needle (c # cs) \<or> contains needle cs)"

text \<open>
  \<open>s in x\<close> for a string \<open>s\<close>: a substring test on a string, a membership test on a
  list, a key test on a dict, and a \<open>TypeError\<close> on a value that is not iterable.
\<close>

fun str_in :: "string \<Rightarrow> pyval \<Rightarrow> error + bool" where
  "str_in s (PStr t) = Inr (contains s t)"
| "str_in s (PList xs) = Inr (PStr s \<in> set xs)"
| "str_in s (PDict d) = Inr (s \<in> set (map fst d))"
| "str_in s v = Inl TypeError"

text \<open>\<open>x[key]\<close> for a string key: only a dict can be indexed by a string.\<close>

fun getitem_str :: "pyval \<Rightarrow> string \<Rightarrow> error + pyval" where
  "getitem_str (PDict d) k = (case map_of d k of None \<Rightarrow> Inl KeyError | Some v \<Rightarrow> Inr v)"
| "getitem_str v k = Inl TypeError"

text \<open>
  \<open>x[-1]\<close>: the last element of a list, the last character of a string (an
  \<open>IndexError\<close> when empty), a \<open>KeyError\<close> on a dict (its keys are strings), a
  \<open>TypeError\<close> otherwise.
\<close>

fun getitem_last :: "pyval \<Rightarrow> error + pyval" where
  "getitem_last (PList xs) = (if xs = [] then Inl IndexError else Inr (last xs))"
| "getitem_last (PStr s) = (if s = [] then Inl IndexError else Inr (PStr [last s]))"
| "getitem_last (PDict d) = Inl KeyError"
| "getitem_last v = Inl TypeError"

section \<open>Arguments of the entry points\<close>

text \<open>
  The parameters the three entry points share, those of \<open>compile_files\<close> and
  \<open>compile_source\<close>, and those of \<open>extract_combined_json_from_compile_combined_json\<close>.
  A parameter that the wrapper only tests against \<open>None\<close>, stores or passes on is a
  \<open>pyval\<close>; a flag is a \<open>bool\<close>, as annotated.
\<close>

record base_args =
  base_path :: pyval
  allow_paths :: pyval
  output_dir :: pyval
  overwrite :: bool
  solc_binary :: pyval
  solc_version :: "version option"
  allow_empty :: bool

record standard_args = base_args +
  input_data :: pydict

record solidity_args = base_args +
  output_values :: pyval
  import_remappings :: pyval
  evm_version :: pyval
  revert_strings :: pyval
  metadata_hash :: pyval
  metadata_literal :: bool
  optimize :: bool
  optimize_runs :: pyval
  optimize_yul :: bool
  no_optimize_yul :: bool
  yul_optimizations :: pyval

record combined_args = solidity_args +
  source_files :: pyval
  stdin :: pyval

section \<open>The environment\<close>

text \<open>
  What the wrapper calls outside this repository, as parameters:
  \<^item> \<open>read_file p\<close>: \<open>open(p, "r")\<close> followed by \<open>f.read()\<close>; \<open>None\<close> when either raises,
    \<open>Some text\<close> (possibly empty) otherwise;
  \<^item> \<open>py_repr\<close>: what \<open>str()\<close> gives for a list or a dict;
  \<^item> \<open>get_executable\<close>: \<open>solcx.main.get_executable(None)\<close>;
  \<^item> \<open>get_solc_version\<close>: \<open>solcx.wrapper._get_solc_version(binary)\<close>;
  \<^item> \<open>token_hex n\<close>: the \<open>n\<close>-th value \<open>secrets.token_hex(nbytes=16)\<close> returns;
  \<^item> \<open>can_create name\<close>: whether \<open>open(output_directory / name, "w")\<close> succeeds;
  \<^item> \<open>solcx_compile_standard\<close>, \<open>solcx_compile_files\<close>, \<open>solcx_compile_source\<close>: the
    entry points of \<open>solcx.main\<close>, which the wrappers delegate to.
\<close>

record env =
  read_file :: "string \<Rightarrow> string option"
  py_repr :: "pyval \<Rightarrow> string"
  get_executable :: "error + pyval"
  get_solc_version :: "pyval \<Rightarrow> error + version"
  token_hex :: "nat \<Rightarrow> string"
  can_create :: "string \<Rightarrow> bool"
  solcx_compile_standard :: "standard_args \<Rightarrow> error + pyval"
  solcx_compile_files :: "pyval \<Rightarrow> solidity_args \<Rightarrow> error + pyval"
  solcx_compile_source :: "pyval \<Rightarrow> solidity_args \<Rightarrow> error + pyval"

section \<open>URL resolution\<close>

text \<open>
  \<open>open(last_url, "r")\<close> and \<open>f.read()\<close>. A list or a dict is not a path
  (\<open>TypeError\<close>); the other values cannot arrive here, the \<open>in\<close> test before has
  raised on them.
\<close>

fun open_read :: "env \<Rightarrow> pyval \<Rightarrow> error + string" where
  "open_read E (PStr p) = (case read_file E p of None \<Rightarrow> Inl OSError | Some c \<Rightarrow> Inr c)"
| "open_read E (PPath p) = (case read_file E p of None \<Rightarrow> Inl OSError | Some c \<Rightarrow> Inr c)"
| "open_read E v = Inl TypeError"

text \<open>
  The test of line 39, \<open>"ipfs://" in last_url or "bzzr:" in last_url\<close>; \<open>or\<close> does not
  evaluate its right side when the left one is true.
\<close>

definition is_remote :: "pyval \<Rightarrow> error + bool" where
  "is_remote last_url =
     (case str_in ''ipfs://'' last_url of
        Inl e \<Rightarrow> Inl e
      | Inr True \<Rightarrow> Inr True
      | Inr False \<Rightarrow> str_in ''bzzr:'' last_url)"

text \<open>
  The body of the loop of \<open>_resolve_urls\<close> for one \<open>fileobj\<close>: \<open>Inr None\<close> when the entry
  is left as it is, \<open>Inr (Some v)\<close> when \<open>input_data["sources"][filename]\<close> is assigned
  \<open>v\<close>. \<open>f.read()\<close> never returns \<open>None\<close>, so the test of line 44 never holds and its
  \<open>raise\<close> has no branch here.
\<close>

definition resolve_entry :: "env \<Rightarrow> pyval \<Rightarrow> error + pyval option" where
  "resolve_entry E fileobj =
     (case str_in ''urls'' fileobj of
        Inl e \<Rightarrow> Inl e
      | Inr False \<Rightarrow> Inr None
      | Inr True \<Rightarrow>
          (case getitem_str fileobj ''urls'' of
             Inl e \<Rightarrow> Inl e
           | Inr urls \<Rightarrow>
               (case getitem_last urls of
                  Inl e \<Rightarrow> Inl e
                | Inr last_url \<Rightarrow>
                    (case is_remote last_url of
                       Inl e \<Rightarrow> Inl e
                     | Inr True \<Rightarrow> Inl (AuditlessSolcxException (RemoteNotSupported last_url))
                     | Inr False \<Rightarrow>
                         (case open_read E last_url of
                            Inl e \<Rightarrow> Inl e
                          | Inr content \<Rightarrow> Inr (Some (PDict [(''content'', PStr content)])))))))"

text \<open>
  The loop over a dict of sources: \<open>for filename in sources\<close> walks the keys, each
  iteration reads \<open>sources[filename]\<close> from the dict as it is by then and may assign
  to that key, which keeps the keys and their order.
\<close>

fun resolve_keys :: "env \<Rightarrow> string list \<Rightarrow> pydict \<Rightarrow> error + pydict" where
  "resolve_keys E [] srcs = Inr srcs"
| "resolve_keys E (filename # rest) srcs =
     (case map_of srcs filename of
        None \<Rightarrow> Inl KeyError
      | Some fileobj \<Rightarrow>
          (case resolve_entry E fileobj of
             Inl e \<Rightarrow> Inl e
           | Inr None \<Rightarrow> resolve_keys E rest srcs
           | Inr (Some v) \<Rightarrow> resolve_keys E rest (AList.update filename v srcs)))"

text \<open>
  The same loop when \<open>sources\<close> is a list: \<open>for filename in sources\<close> walks the elements
  by position, \<open>sources[filename]\<close> needs an integer (a \<open>bool\<close> is one) within range,
  counted from the end when negative.
\<close>

fun py_index :: "pyval \<Rightarrow> int option" where
  "py_index (PInt i) = Some i"
| "py_index (PBool b) = Some (if b then 1 else 0)"
| "py_index v = None"

function resolve_positions :: "env \<Rightarrow> nat \<Rightarrow> pyval list \<Rightarrow> error + pyval list" where
  "resolve_positions E j xs =
     (if length xs \<le> j then Inr xs
      else
        (case py_index (xs ! j) of
           None \<Rightarrow> Inl TypeError
         | Some i \<Rightarrow>
             (let n = int (length xs); k = (if i < 0 then n + i else i) in
              if k < 0 \<or> n \<le> k then Inl IndexError
              else
                (case resolve_entry E (xs ! nat k) of
                   Inl e \<Rightarrow> Inl e
                 | Inr None \<Rightarrow> resolve_positions E (Suc j) xs
                 | Inr (Some v) \<Rightarrow> resolve_positions E (Suc j) (xs[nat k := v])))))"
  by pat_completeness auto
termination
  by (relation "measure (\<lambda>(E, j, xs). length xs - j)") auto

text \<open>
  The loop for any value of \<open>input_data["sources"]\<close>. A string is walked character by
  character and cannot be indexed by one; the remaining values are not iterable.
\<close>

fun resolve_sources :: "env \<Rightarrow> pyval \<Rightarrow> error + pyval" where
  "resolve_sources E (PDict srcs) =
     (case resolve_keys E (map fst srcs) srcs of Inl e \<Rightarrow> Inl e | Inr srcs' \<Rightarrow> Inr (PDict srcs'))"
| "resolve_sources E (PList xs) =
     (case resolve_positions E 0 xs of Inl e \<Rightarrow> Inl e | Inr xs' \<Rightarrow> Inr (PList xs'))"
| "resolve_sources E (PStr s) = (if s = [] then Inr (PStr s) else Inl TypeError)"
| "resolve_sources E v = Inl TypeError"

text \<open>
  \<open>_resolve_urls\<close>. The Python changes the dict under \<open>input_data["sources"]\<close> in place
  and returns \<open>input_data\<close>, the caller's own object; here the changed document is the
  result.
\<close>

definition resolve_urls :: "env \<Rightarrow> pydict \<Rightarrow> error + pydict" where
  "resolve_urls E doc =
     (case map_of doc ''sources'' of
        None \<Rightarrow> Inl KeyError
      | Some sources \<Rightarrow>
          (case resolve_sources E sources of
             Inl e \<Rightarrow> Inl e
           | Inr sources' \<Rightarrow> Inr (AList.update ''sources'' sources' doc)))"

section \<open>Normalising the files and source arguments\<close>

text \<open>\<open>str(x)\<close>: the text of a scalar; \<open>py_repr\<close> for a list or a dict.\<close>

function show_nat :: "nat \<Rightarrow> string" where
  "show_nat n =
     (if n < 10 then [''0123456789'' ! n]
      else show_nat (n div 10) @ [''0123456789'' ! (n mod 10)])"
  by pat_completeness auto
termination
  by (relation "measure (\<lambda>n. n)") auto

definition show_int :: "int \<Rightarrow> string" where
  "show_int i = (if i < 0 then CHR ''-'' # show_nat (nat (- i)) else show_nat (nat i))"

fun str_py :: "env \<Rightarrow> pyval \<Rightarrow> string" where
  "str_py E (PStr s) = s"
| "str_py E (PPath p) = p"
| "str_py E (PInt i) = show_int i"
| "str_py E (PBool b) = (if b then ''True'' else ''False'')"
| "str_py E PNone = ''None''"
| "str_py E v = py_repr E v"

text \<open>
  \<open>Path(p).name\<close> on a POSIX path: the last component of the path, where empty
  components and \<open>.\<close> components do not count; empty when there is none.
\<close>

fun split_path :: "string \<Rightarrow> string list" where
  "split_path [] = [[]]"
| "split_path (c # cs) =
     (if c = CHR ''/'' then [] # split_path cs
      else (case split_path cs of [] \<Rightarrow> [[c]] | w # ws \<Rightarrow> (c # w) # ws))"

definition path_name :: "string \<Rightarrow> string" where
  "path_name p =
     (case filter (\<lambda>x. x \<noteq> [] \<and> x \<noteq> ''.'') (split_path p) of
        [] \<Rightarrow> []
      | x # xs \<Rightarrow> last (x # xs))"

text \<open>\<open>_filename\<close>: a value that is neither a string nor a path has no \<open>name\<close>.\<close>

fun filename :: "pyval \<Rightarrow> error + string" where
  "filename (PStr p) = Inr (path_name p)"
| "filename (PPath p) = Inr (path_name p)"
| "filename v = Inl AttributeError"

text \<open>
  \<open>_normalize_solidity_input\<close>. A dict has no method \<open>iter\<close>, so the first branch
  raises \<open>AttributeError\<close> before it builds anything.
\<close>

fun normalize_solidity_input :: "env \<Rightarrow> string \<Rightarrow> pyval \<Rightarrow> error + pydict" where
  "normalize_solidity_input E name (PDict d) = Inl AttributeError"
| "normalize_solidity_input E name (PList xs) = Inr [(name, PList (map (\<lambda>x. PStr (str_py E x)) xs))]"
| "normalize_solidity_input E name PNone = Inr []"
| "normalize_solidity_input E name v = Inr [(name, PStr (str_py E v))]"

text \<open>
  The dict comprehension of line 304: one entry per path, in order; a later path with
  the name of an earlier one takes its place.
\<close>

fun sources_of_list :: "pyval list \<Rightarrow> pydict \<Rightarrow> error + pydict" where
  "sources_of_list [] acc = Inr acc"
| "sources_of_list (path # paths) acc =
     (case filename path of
        Inl e \<Rightarrow> Inl e
      | Inr n \<Rightarrow> sources_of_list paths (AList.update n (PDict [(''urls'', PList [path])]) acc))"

text \<open>The branches of lines 303 to 311.\<close>

fun initial_sources :: "env \<Rightarrow> pyval \<Rightarrow> pyval \<Rightarrow> error + pydict" where
  "initial_sources E (PList paths) stdin_v = sources_of_list paths []"
| "initial_sources E PNone PNone = Inl (AuditlessSolcxException NoSourceFiles)"
| "initial_sources E PNone stdin_v = Inr [(''<stdin>'', PDict [(''content'', stdin_v)])]"
| "initial_sources E files stdin_v =
     (let s = str_py E files in Inr [(path_name s, PDict [(''urls'', PList [PStr s])])])"

text \<open>
  \<open>if k not in d: d[k] = dict()\<close>, and \<open>d[k1][k2] = v\<close> where \<open>d[k1]\<close> is a dict (it
  always is where the source does this).
\<close>

definition ensure_dict :: "string \<Rightarrow> pydict \<Rightarrow> pydict" where
  "ensure_dict k d = (if k \<in> set (map fst d) then d else AList.update k (PDict []) d)"

definition set_in :: "string \<Rightarrow> string \<Rightarrow> pyval \<Rightarrow> pydict \<Rightarrow> pydict" where
  "set_in k1 k2 v d =
     (case map_of d k1 of
        Some (PDict inner) \<Rightarrow> AList.update k1 (PDict (AList.update k2 v inner)) d
      | _ \<Rightarrow> d)"

text \<open>Lines 313 to 321.\<close>

definition metadata_of :: "pyval \<Rightarrow> bool \<Rightarrow> pydict" where
  "metadata_of hash literal =
     (let m0 = [];
          m1 = (if hash \<noteq> PNone
                then set_in ''metadata'' ''bytecodeHash'' hash (ensure_dict ''metadata'' m0)
                else m0);
          m2 = (if literal
                then set_in ''metadata'' ''useLiteralContent'' (PBool literal) (ensure_dict ''metadata'' m1)
                else m1)
      in m2)"

text \<open>Lines 323 to 337.\<close>

definition set_yul :: "pydict \<Rightarrow> pydict" where
  "set_yul d =
     (case map_of d ''optimizer'' of
        Some (PDict opt) \<Rightarrow>
          AList.update ''optimizer''
            (PDict (set_in ''details'' ''yul'' (PBool True) (ensure_dict ''details'' opt))) d
      | _ \<Rightarrow> d)"

definition optimizer_of :: "bool \<Rightarrow> pyval \<Rightarrow> bool \<Rightarrow> pydict" where
  "optimizer_of opt runs yul =
     (let o0 = [];
          o1 = (if opt
                then set_in ''optimizer'' ''enabled'' (PBool True) (ensure_dict ''optimizer'' o0)
                else o0);
          o2 = (if runs \<noteq> PNone
                then set_in ''optimizer'' ''runs'' runs (ensure_dict ''optimizer'' o1)
                else o1);
          o3 = (if yul then set_yul (ensure_dict ''optimizer'' o2) else o2)
      in o3)"

text \<open>\<open>{**a, **b}\<close>: the pairs of \<open>b\<close> are assigned to \<open>a\<close> one after the other.\<close>

definition merge :: "pydict \<Rightarrow> pydict \<Rightarrow> pydict" where
  "merge a b = foldl (\<lambda>acc kv. AList.update (fst kv) (snd kv) acc) a b"

text \<open>
  \<open>extract_combined_json_from_compile_combined_json\<close>, in the order of the source: the
  sources, the metadata and optimizer settings, the test of \<open>yul_optimizations\<close>, the
  settings (left to right), the URL resolution, and last the test of \<open>base_path\<close>.
\<close>

definition extract_combined_json_from_compile_combined_json ::
  "env \<Rightarrow> combined_args \<Rightarrow> error + pydict" where
  "extract_combined_json_from_compile_combined_json E a =
     (case initial_sources E (source_files a) (stdin a) of
        Inl e \<Rightarrow> Inl e
      | Inr sources \<Rightarrow>
          (let metadata = metadata_of (metadata_hash a) (metadata_literal a);
               optimizer = optimizer_of (optimize a) (optimize_runs a) (optimize_yul a)
           in if yul_optimizations a \<noteq> PNone then Inl (AuditlessSolcxException YulNotSupported)
              else
                (case normalize_solidity_input E ''remappings'' (import_remappings a) of
                   Inl e \<Rightarrow> Inl e
                 | Inr remappings \<Rightarrow>
                     (case normalize_solidity_input E ''evmVersion'' (evm_version a) of
                        Inl e \<Rightarrow> Inl e
                      | Inr evm \<Rightarrow>
                          (let debug = (if revert_strings a = PNone then []
                                        else [(''debug'', PDict [(''revertStrings'', revert_strings a)])]);
                               settings =
                                 merge (merge (merge (merge (merge [] remappings) evm) debug) metadata)
                                   optimizer;
                               doc = [(''language'', PStr ''Solidity''),
                                      (''sources'', PDict sources),
                                      (''settings'', PDict settings)]
                           in (case resolve_urls E doc of
                                 Inl e \<Rightarrow> Inl e
                               | Inr doc' \<Rightarrow>
                                   if base_path a \<noteq> PNone
                                   then Inl (AuditlessSolcxException BasePathProvided)
                                   else Inr doc'))))))"

text \<open>\<open>_extract_combined_json_from_compile_standard\<close>.\<close>

definition extract_combined_json_from_compile_standard ::
  "env \<Rightarrow> pydict \<Rightarrow> pyval \<Rightarrow> error + pydict" where
  "extract_combined_json_from_compile_standard E doc bp =
     (case resolve_urls E doc of
        Inl e \<Rightarrow> Inl e
      | Inr doc' \<Rightarrow>
          if bp \<noteq> PNone then Inl (AuditlessSolcxException BasePathProvided) else Inr doc')"

section \<open>Version resolution\<close>

text \<open>\<open>_determine_solidity_version\<close>.\<close>

definition determine_solidity_version :: "env \<Rightarrow> pyval \<Rightarrow> version option \<Rightarrow> error + version" where
  "determine_solidity_version E binary ver =
     (case ver of
        Some v \<Rightarrow> Inr v
      | None \<Rightarrow>
          (if binary = PNone
           then (case get_executable E of Inl e \<Rightarrow> Inl e | Inr b \<Rightarrow> get_solc_version E b)
           else get_solc_version E binary))"

section \<open>Writing the artifact\<close>

text \<open>
  The files of the output directory, by name. \<open>Json v\<close> is a file holding the whole
  text \<open>json.dump\<close> writes for \<open>v\<close>, which \<open>json.load\<close> reads back as \<open>v\<close>;
  \<open>Truncated\<close> is a file that \<open>open(..., "w")\<close> created and \<open>json.dump\<close> did not finish.
  \<open>draws\<close> counts the calls of \<open>secrets.token_hex\<close>, \<open>calls\<close> lists the calls of the
  entry points of \<open>solcx.main\<close>.
\<close>

datatype file_content = Json pyval | Truncated

datatype call =
    CompileStandard standard_args
  | CompileFiles pyval solidity_args
  | CompileSource pyval solidity_args

record world =
  build_info :: "string \<Rightarrow> file_content option"
  draws :: nat
  calls :: "call list"

text \<open>What \<open>json.dump\<close> can serialise: everything but a \<open>Path\<close>, at any depth.\<close>

fun serialisable :: "pyval \<Rightarrow> bool" where
  "serialisable (PPath p) = False"
| "serialisable (PList xs) = list_all serialisable xs"
| "serialisable (PDict d) = list_all (\<lambda>kv. serialisable (snd kv)) d"
| "serialisable v = True"

text \<open>
  \<open>_save_artifacts\<close>: the name is drawn, the file is opened for writing (which creates
  or empties it), then \<open>json.dump\<close> writes into it and raises \<open>TypeError\<close> at the first
  value it cannot serialise.
\<close>

definition artifact :: "pydict \<Rightarrow> string \<Rightarrow> pyval" where
  "artifact standard_json ver =
     PDict [(''_format'', PStr ''hh-sol-build-info-1''),
            (''solcVersion'', PStr ver),
            (''input'', PDict standard_json)]"

definition artifact_name :: "env \<Rightarrow> world \<Rightarrow> string" where
  "artifact_name E W = token_hex E (draws W) @ ''.json''"

definition save_artifacts :: "env \<Rightarrow> pydict \<Rightarrow> string \<Rightarrow> world \<Rightarrow> (error + unit) \<times> world" where
  "save_artifacts E standard_json ver W =
     (let info = artifact standard_json ver;
          name = artifact_name E W;
          W1 = W\<lparr>draws := Suc (draws W)\<rparr>
      in if \<not> can_create E name then (Inl OSError, W1)
         else if serialisable info
         then (Inr (), W1\<lparr>build_info := (build_info W1)(name \<mapsto> Json info)\<rparr>)
         else (Inl TypeError, W1\<lparr>build_info := (build_info W1)(name \<mapsto> Truncated)\<rparr>))"

section \<open>The wrapped entry points\<close>

text \<open>
  \<open>compile_standard\<close> as \<open>create_compile_standard\<close> returns it. The names \<open>input_data\<close>
  and \<open>solc_version\<close> are rebound before the call of \<open>solcx.main.compile_standard\<close>,
  which receives the resolved document and the determined version.
\<close>

definition compile_standard :: "env \<Rightarrow> standard_args \<Rightarrow> world \<Rightarrow> (error + pyval) \<times> world" where
  "compile_standard E a W =
     (case extract_combined_json_from_compile_standard E (input_data a) (base_path a) of
        Inl e \<Rightarrow> (Inl e, W)
      | Inr doc \<Rightarrow>
          (case determine_solidity_version E (solc_binary a) (solc_version a) of
             Inl e \<Rightarrow> (Inl e, W)
           | Inr ver \<Rightarrow>
               (case save_artifacts E doc ver W of
                  (Inl e, W1) \<Rightarrow> (Inl e, W1)
                | (Inr u, W1) \<Rightarrow>
                    (let a' = a\<lparr>input_data := doc, solc_version := Some ver\<rparr>
                     in (solcx_compile_standard E a',
                         W1\<lparr>calls := calls W1 @ [CompileStandard a']\<rparr>)))))"

text \<open>\<open>_compile_combined_json\<close>; \<open>kwargs\<close> are the keyword arguments it does not name.\<close>

definition compile_combined_json ::
  "env \<Rightarrow> combined_args \<Rightarrow> pydict \<Rightarrow> world \<Rightarrow> (error + unit) \<times> world" where
  "compile_combined_json E a kwargs W =
     (if kwargs \<noteq> [] then (Inl (AuditlessSolcxException (UnsupportedArguments kwargs)), W)
      else
        (case extract_combined_json_from_compile_combined_json E a of
           Inl e \<Rightarrow> (Inl e, W)
         | Inr doc \<Rightarrow>
             (case determine_solidity_version E (solc_binary a) (solc_version a) of
                Inl e \<Rightarrow> (Inl e, W)
              | Inr ver \<Rightarrow> save_artifacts E doc ver W)))"

text \<open>
  The keyword arguments \<open>compile_files\<close> and \<open>compile_source\<close> hand to
  \<open>_compile_combined_json\<close>, one by one as the source lists them. Neither call names
  \<open>optimize_yul\<close>, so it has its default \<open>False\<close> there.
\<close>

definition forwarded :: "solidity_args \<Rightarrow> pyval \<Rightarrow> pyval \<Rightarrow> combined_args" where
  "forwarded a files stdin_v =
     \<lparr> base_path = base_path a,
       allow_paths = allow_paths a,
       output_dir = output_dir a,
       overwrite = overwrite a,
       solc_binary = solc_binary a,
       solc_version = solc_version a,
       allow_empty = allow_empty a,
       output_values = output_values a,
       import_remappings = import_remappings a,
       evm_version = evm_version a,
       revert_strings = revert_strings a,
       metadata_hash = metadata_hash a,
       metadata_literal = metadata_literal a,
       optimize = optimize a,
       optimize_runs = optimize_runs a,
       optimize_yul = False,
       no_optimize_yul = no_optimize_yul a,
       yul_optimizations = yul_optimizations a,
       source_files = files,
       stdin = stdin_v \<rparr>"

definition compile_files ::
  "env \<Rightarrow> pyval \<Rightarrow> solidity_args \<Rightarrow> world \<Rightarrow> (error + pyval) \<times> world" where
  "compile_files E files a W =
     (case compile_combined_json E (forwarded a files PNone) [] W of
        (Inl e, W1) \<Rightarrow> (Inl e, W1)
      | (Inr u, W1) \<Rightarrow>
          (solcx_compile_files E files a, W1\<lparr>calls := calls W1 @ [CompileFiles files a]\<rparr>))"

definition compile_source ::
  "env \<Rightarrow> pyval \<Rightarrow> solidity_args \<Rightarrow> world \<Rightarrow> (error + pyval) \<times> world" where
  "compile_source E source a W =
     (case compile_combined_json E (forwarded a PNone source) [] W of
        (Inl e, W1) \<Rightarrow> (Inl e, W1)
      | (Inr u, W1) \<Rightarrow>
          (solcx_compile_source E source a, W1\<lparr>calls := calls W1 @ [CompileSource source a]\<rparr>))"

section \<open>Shapes of documents and entries\<close>

text \<open>
  A source entry that carries literal content and no location list, a document all of
  whose source entries do, and a source entry whose location list ends with the
  string \<open>u\<close>.
\<close>

definition content_entry :: "pyval \<Rightarrow> bool" where
  "content_entry fileobj =
     (case fileobj of
        PDict d \<Rightarrow> ''content'' \<in> set (map fst d) \<and> ''urls'' \<notin> set (map fst d)
      | _ \<Rightarrow> False)"

definition resolved_document :: "pydict \<Rightarrow> bool" where
  "resolved_document doc =
     (case map_of doc ''sources'' of
        Some (PDict srcs) \<Rightarrow> list_all (\<lambda>kv. content_entry (snd kv)) srcs
      | _ \<Rightarrow> False)"

definition url_entry :: "pyval \<Rightarrow> string \<Rightarrow> bool" where
  "url_entry fileobj u =
     (case fileobj of
        PDict d \<Rightarrow>
          (case map_of d ''urls'' of
             Some (PList urls) \<Rightarrow> urls \<noteq> [] \<and> last urls = PStr u
           | _ \<Rightarrow> False)
      | _ \<Rightarrow> False)"

text \<open>
  A location whose scheme indicates content-addressed or distributed storage: an
  IPFS-style URL (scheme \<open>ipfs\<close>) or a Swarm-style URL (schemes \<open>bzz\<close>, \<open>bzz-raw\<close> and
  \<open>bzzr\<close>).
\<close>

definition storage_scheme :: "string \<Rightarrow> bool" where
  "storage_scheme u =
     (prefix ''ipfs://'' u \<or> prefix ''bzz://'' u \<or> prefix ''bzz-raw://'' u \<or> prefix ''bzzr://'' u)"

text \<open>A location that starts with one of the two markers line 39 of the source tests for.\<close>

definition marked_scheme :: "string \<Rightarrow> bool" where
  "marked_scheme u = (prefix ''ipfs://'' u \<or> prefix ''bzzr:'' u)"

text \<open>A scalar option: neither \<open>None\<close>, nor a list, nor a dict.\<close>

definition scalar :: "pyval \<Rightarrow> bool" where
  "scalar v = (case v of PNone \<Rightarrow> False | PList xs \<Rightarrow> False | PDict d \<Rightarrow> False | _ \<Rightarrow> True)"

text \<open>A canonical document: its sources are literal and \<open>json.dump\<close> can write it.\<close>

definition canonical_document :: "pydict \<Rightarrow> bool" where
  "canonical_document doc = (resolved_document doc \<and> serialisable (PDict doc))"

section \<open>An example environment\<close>

text \<open>
  A file system with one contract and one empty file, a compiler of version 0.7.6,
  an output directory that can be written, and a backend that returns an empty
  result; the documents of the repository's tests, with shorter sources.
\<close>

definition example_env :: env where
  "example_env =
     \<lparr> read_file = (\<lambda>p. if p = ''/a/b/contract.sol'' then Some ''contract C {}''
                         else if p = ''/a/empty.sol'' then Some []
                         else None),
       py_repr = (\<lambda>v. ''[...]''),
       get_executable = Inr (PPath ''/usr/bin/solc''),
       get_solc_version = (\<lambda>b. Inr ''0.7.6''),
       token_hex = (\<lambda>n. replicate 31 CHR ''0'' @ [''0123456789abcdef'' ! (n mod 16)]),
       can_create = (\<lambda>n. True),
       solcx_compile_standard = (\<lambda>a. Inr (PDict [(''contracts'', PDict [])])),
       solcx_compile_files = (\<lambda>f a. Inr (PDict [])),
       solcx_compile_source = (\<lambda>s a. Inr (PDict [])) \<rparr>"

definition example_world :: world where
  "example_world = \<lparr> build_info = (\<lambda>n. None), draws = 0, calls = [] \<rparr>"

definition example_document :: pydict where
  "example_document =
     [(''language'', PStr ''Solidity''),
      (''sources'',
       PDict [(''file1'', PDict [(''content'', PStr ''contract Test {}'')]),
              (''file2'', PDict [(''content'', PStr ''import file1; contract Test2 {}'')])]),
      (''settings'',
       PDict [(''outputSelection'',
               PDict [(''*'', PDict [(''*'', PList [PStr ''metadata'', PStr ''evm.bytecode''])])])])]"

definition example_url_document :: "string \<Rightarrow> pydict" where
  "example_url_document u =
     [(''language'', PStr ''Solidity''),
      (''sources'', PDict [(''contract.sol'', PDict [(''urls'', PList [PStr u])])]),
      (''settings'', PDict [])]"

definition example_content_document :: "string \<Rightarrow> pydict" where
  "example_content_document c =
     [(''language'', PStr ''Solidity''),
      (''sources'', PDict [(''contract.sol'', PDict [(''content'', PStr c)])]),
      (''settings'', PDict [])]"

definition example_standard_args :: "pydict \<Rightarrow> version option \<Rightarrow> standard_args" where
  "example_standard_args doc ver =
     \<lparr> base_path = PNone, allow_paths = PNone, output_dir = PNone, overwrite = False,
       solc_binary = PNone, solc_version = ver, allow_empty = False, input_data = doc \<rparr>"

definition example_solidity_args :: solidity_args where
  "example_solidity_args =
     \<lparr> base_path = PNone, allow_paths = PNone, output_dir = PNone, overwrite = False,
       solc_binary = PNone, solc_version = Some ''0.7.6'', allow_empty = False,
       output_values = PNone, import_remappings = PNone, evm_version = PNone,
       revert_strings = PNone, metadata_hash = PNone, metadata_literal = False,
       optimize = False, optimize_runs = PNone, optimize_yul = False,
       no_optimize_yul = False, yul_optimizations = PNone \<rparr>"

definition example_remote_document :: pydict where
  "example_remote_document =
     [(''language'', PStr ''Solidity''),
      (''sources'',
       PDict [(''a.sol'', PDict [(''urls'', PList [PStr ''/a/b/contract.sol''])]),
              (''b.sol'', PDict [(''urls'', PList [PStr ''/a/b.sol'', PStr ''ipfs://QmHash/b.sol''])])]),
      (''settings'', PDict [])]"

definition example_masked_document :: pydict where
  "example_masked_document =
     [(''language'', PStr ''Solidity''),
      (''sources'',
       PDict [(''a.sol'', PDict [(''urls'', PList [PStr ''/a/missing.sol''])]),
              (''b.sol'', PDict [(''urls'', PList [PStr ''ipfs://QmHash/b.sol''])])]),
      (''settings'', PDict [])]"

definition example_path_document :: pydict where
  "example_path_document =
     [(''language'', PStr ''Solidity''),
      (''sources'', PDict [(''file1'', PDict [(''content'', PStr ''contract Test {}'')])]),
      (''settings'', PDict [(''cache'', PPath ''/tmp/cache'')])]"

definition example_readonly_env :: env where
  "example_readonly_env = example_env\<lparr>can_create := (\<lambda>n. False)\<rparr>"

definition example_no_solc_env :: env where
  "example_no_solc_env = example_env\<lparr>get_executable := Inl (SolcxError ''SolcNotInstalled'')\<rparr>"

definition example_stdin_document :: "pyval \<Rightarrow> pydict \<Rightarrow> pydict" where
  "example_stdin_document source settings =
     [(''language'', PStr ''Solidity''),
      (''sources'', PDict [(''<stdin>'', PDict [(''content'', source)])]),
      (''settings'', PDict settings)]"

section \<open>Facts about URL resolution\<close>

lemma contains_iff: "contains n s \<longleftrightarrow> (\<exists>p q. s = p @ n @ q)"
proof (induction s)
  case Nil
  then show ?case by auto
next
  case (Cons c cs)
  show ?case
  proof
    assume "contains n (c # cs)"
    then consider "prefix n (c # cs)" | "contains n cs" by auto
    then show "\<exists>p q. c # cs = p @ n @ q"
    proof cases
      case 1
      then obtain q where "c # cs = n @ q" by (auto simp: prefix_def)
      then have "c # cs = [] @ n @ q" by simp
      then show ?thesis by blast
    next
      case 2
      with Cons obtain p q where "cs = p @ n @ q" by auto
      then have "c # cs = (c # p) @ n @ q" by simp
      then show ?thesis by blast
    qed
  next
    assume "\<exists>p q. c # cs = p @ n @ q"
    then obtain p q where pq: "c # cs = p @ n @ q" by auto
    show "contains n (c # cs)"
    proof (cases p)
      case Nil
      with pq have "prefix n (c # cs)" by (auto simp: prefix_def)
      then show ?thesis by simp
    next
      case (Cons a p')
      with pq have "cs = p' @ n @ q" by simp
      with Cons.IH have "contains n cs" by blast
      then show ?thesis by simp
    qed
  qed
qed


lemma is_remote_str:
  "is_remote (PStr u) = Inr (contains ''ipfs://'' u \<or> contains ''bzzr:'' u)"
  by (cases "contains ''ipfs://'' u") (simp_all add: is_remote_def)

lemma resolve_entry_content_entry: "content_entry fo \<Longrightarrow> resolve_entry E fo = Inr None"
  by (auto simp: content_entry_def resolve_entry_def split: pyval.splits)

lemma resolve_entry_stable:
  assumes "resolve_entry E fo = Inr (Some v)"
  shows "resolve_entry E v = Inr None"
proof -
  from assms obtain c where "v = PDict [(''content'', PStr c)]"
    by (auto simp: resolve_entry_def split: sum.splits bool.splits)
  then show ?thesis by (simp add: resolve_entry_def)
qed

lemma resolve_entry_url:
  assumes "url_entry fo u"
  shows "resolve_entry E fo =
           (if contains ''ipfs://'' u \<or> contains ''bzzr:'' u
            then Inl (AuditlessSolcxException (RemoteNotSupported (PStr u)))
            else (case read_file E u of
                    None \<Rightarrow> Inl OSError
                  | Some c \<Rightarrow> Inr (Some (PDict [(''content'', PStr c)]))))"
proof -
  from assms obtain d urls where fo: "fo = PDict d" and d: "map_of d ''urls'' = Some (PList urls)"
    and urls: "urls \<noteq> []" "last urls = PStr u"
    by (cases fo; cases "map_of (case fo of PDict d \<Rightarrow> d | _ \<Rightarrow> []) ''urls''")
       (auto simp: url_entry_def split: pyval.splits)
  from d have "''urls'' \<in> set (map fst d)"
    by (metis domI dom_map_of_conv_image_fst set_map)
  with fo d urls show ?thesis
    by (simp add: resolve_entry_def is_remote_str split: option.splits)
qed

text \<open>
  What a successful run of the loop leaves under each key: the replacement where the
  entry was resolved, the entry itself otherwise.
\<close>

lemma resolve_keys_lookup:
  assumes "resolve_keys E ks srcs = Inr srcs'"
  shows "map_of srcs' k =
           (if k \<in> set ks
            then (case map_of srcs k of
                    None \<Rightarrow> None
                  | Some fo \<Rightarrow>
                      (case resolve_entry E fo of Inr (Some v) \<Rightarrow> Some v | _ \<Rightarrow> Some fo))
            else map_of srcs k)"
  using assms
proof (induction ks arbitrary: srcs)
  case Nil
  then show ?case by simp
next
  case (Cons h rest)
  from Cons.prems obtain fo where fo: "map_of srcs h = Some fo"
    by (auto split: option.splits)
  from Cons.prems fo obtain r where r: "resolve_entry E fo = Inr r"
    by (auto split: sum.splits)
  show ?case
  proof (cases r)
    case None
    with Cons.prems fo r have rec: "resolve_keys E rest srcs = Inr srcs'" by simp
    show ?thesis using Cons.IH[OF rec] fo r None by auto
  next
    case (Some v)
    with Cons.prems fo r have rec: "resolve_keys E rest (AList.update h v srcs) = Inr srcs'" by simp
    have st: "resolve_entry E v = Inr None" using resolve_entry_stable r Some by blast
    show ?thesis using Cons.IH[OF rec] fo r Some st by (auto simp: update_conv')
  qed
qed

lemma resolve_keys_keys:
  "resolve_keys E ks srcs = Inr srcs' \<Longrightarrow> map fst srcs' = map fst srcs"
proof (induction ks arbitrary: srcs)
  case Nil
  then show ?case by simp
next
  case (Cons h rest)
  from Cons.prems obtain fo where fo: "map_of srcs h = Some fo"
    by (auto split: option.splits)
  then have h: "h \<in> set (map fst srcs)"
    by (metis domI dom_map_of_conv_image_fst set_map)
  from Cons.prems fo obtain r where r: "resolve_entry E fo = Inr r"
    by (auto split: sum.splits)
  show ?case
  proof (cases r)
    case None
    with Cons.prems fo r have "resolve_keys E rest srcs = Inr srcs'" by simp
    then show ?thesis by (rule Cons.IH)
  next
    case (Some v)
    with Cons.prems fo r have "resolve_keys E rest (AList.update h v srcs) = Inr srcs'" by simp
    then have "map fst srcs' = map fst (AList.update h v srcs)" by (rule Cons.IH)
    with h show ?thesis by (simp add: update_keys)
  qed
qed

lemma resolve_keys_noop:
  assumes "\<forall>k \<in> set ks. \<exists>fo. map_of srcs k = Some fo \<and> resolve_entry E fo = Inr None"
  shows "resolve_keys E ks srcs = Inr srcs"
  using assms by (induction ks) auto

lemma resolve_keys_settled:
  assumes "resolve_keys E ks srcs = Inr srcs'" and "k \<in> set ks"
  shows "\<exists>fo. map_of srcs' k = Some fo \<and> resolve_entry E fo = Inr None"
  using assms
proof (induction ks arbitrary: srcs)
  case Nil
  then show ?case by simp
next
  case (Cons h rest)
  from Cons.prems obtain fo where fo: "map_of srcs h = Some fo"
    by (auto split: option.splits)
  from Cons.prems fo obtain r where r: "resolve_entry E fo = Inr r"
    by (auto split: sum.splits)
  define srcs1 where "srcs1 = (case r of None \<Rightarrow> srcs | Some v \<Rightarrow> AList.update h v srcs)"
  from Cons.prems fo r have rec: "resolve_keys E rest srcs1 = Inr srcs'"
    by (cases r) (simp_all add: srcs1_def)
  have h1: "\<exists>fo1. map_of srcs1 h = Some fo1 \<and> resolve_entry E fo1 = Inr None"
  proof (cases r)
    case None
    with fo r show ?thesis by (simp add: srcs1_def)
  next
    case (Some v)
    with r have "resolve_entry E v = Inr None" using resolve_entry_stable by blast
    with Some show ?thesis by (simp add: srcs1_def update_conv')
  qed
  show ?case
  proof (cases "k \<in> set rest")
    case True
    with rec show ?thesis by (rule Cons.IH)
  next
    case False
    with Cons.prems have "k = h" by simp
    moreover from False have "map_of srcs' k = map_of srcs1 k"
      using resolve_keys_lookup[OF rec, of k] by simp
    ultimately show ?thesis using h1 by simp
  qed
qed

lemma resolve_urls_dict:
  assumes "map_of doc ''sources'' = Some (PDict srcs)"
  shows "resolve_urls E doc =
           (case resolve_keys E (map fst srcs) srcs of
              Inl e \<Rightarrow> Inl e
            | Inr srcs' \<Rightarrow> Inr (AList.update ''sources'' (PDict srcs') doc))"
  using assms by (simp add: resolve_urls_def split: sum.splits)

lemma resolved_document_noop:
  assumes "resolved_document doc"
  shows "resolve_urls E doc = Inr doc"
proof -
  from assms obtain srcs where s: "map_of doc ''sources'' = Some (PDict srcs)"
    and c: "list_all (\<lambda>kv. content_entry (snd kv)) srcs"
    by (auto simp: resolved_document_def split: option.splits pyval.splits)
  have "\<forall>k \<in> set (map fst srcs). \<exists>fo. map_of srcs k = Some fo \<and> resolve_entry E fo = Inr None"
  proof
    fix k assume "k \<in> set (map fst srcs)"
    then obtain fo where fo: "map_of srcs k = Some fo"
      by (metis domD dom_map_of_conv_image_fst set_map)
    then have "(k, fo) \<in> set srcs" by (rule map_of_SomeD)
    with c have "content_entry fo" by (auto simp: list_all_iff)
    with fo show "\<exists>fo. map_of srcs k = Some fo \<and> resolve_entry E fo = Inr None"
      by (simp add: resolve_entry_content_entry)
  qed
  then have "resolve_keys E (map fst srcs) srcs = Inr srcs" by (rule resolve_keys_noop)
  with s show ?thesis by (simp add: resolve_urls_dict update_triv)
qed

lemma resolve_urls_twice:
  assumes s: "map_of doc ''sources'' = Some (PDict srcs)" and r: "resolve_urls E doc = Inr doc'"
  shows "resolve_urls E doc' = Inr doc'"
proof -
  from s r obtain srcs' where k: "resolve_keys E (map fst srcs) srcs = Inr srcs'"
    and d: "doc' = AList.update ''sources'' (PDict srcs') doc"
    by (auto simp: resolve_urls_dict split: sum.splits)
  from d have s': "map_of doc' ''sources'' = Some (PDict srcs')" by (simp add: update_conv')
  have keys: "map fst srcs' = map fst srcs" using k by (rule resolve_keys_keys)
  have "\<forall>k \<in> set (map fst srcs'). \<exists>fo. map_of srcs' k = Some fo \<and> resolve_entry E fo = Inr None"
    using resolve_keys_settled[OF k] keys by auto
  then have "resolve_keys E (map fst srcs') srcs' = Inr srcs'" by (rule resolve_keys_noop)
  with s' show ?thesis by (simp add: resolve_urls_dict update_triv)
qed

section \<open>Idempotent URL resolution\<close>

text \<open>
  C9. URL resolution is idempotent. On a document all of whose source entries carry
  \<open>content\<close> and no \<open>urls\<close> it returns the document as it is; and whatever a run
  returns for a document with a dict of sources, a second run returns again.
\<close>

theorem resolve_urls_idempotent:
  "(resolved_document doc \<longrightarrow> resolve_urls E doc = Inr doc) \<and>
   (map_of doc ''sources'' = Some (PDict srcs) \<and> resolve_urls E doc = Inr doc'
      \<longrightarrow> resolve_urls E doc' = Inr doc')"
  using resolved_document_noop resolve_urls_twice by blast

theorem resolve_urls_idempotent_witness:
  "resolved_document example_document \<and>
   resolve_urls example_env example_document = Inr example_document \<and>
   resolve_urls example_env (example_url_document ''/a/b/contract.sol'')
     = Inr (example_content_document ''contract C {}'') \<and>
   resolve_urls example_env (example_content_document ''contract C {}'')
     = Inr (example_content_document ''contract C {}'')"
proof -
  have a: "resolved_document example_document"
    by (simp add: resolved_document_def example_document_def content_entry_def)
  have b: "map_of (example_url_document ''/a/b/contract.sol'') ''sources''
             = Some (PDict [(''contract.sol'', PDict [(''urls'', PList [PStr ''/a/b/contract.sol''])])])"
    by (simp add: example_url_document_def)
  have c: "resolve_urls example_env (example_url_document ''/a/b/contract.sol'')
             = Inr (example_content_document ''contract C {}'')"
    by (simp add: resolve_urls_def resolve_entry_def is_remote_def example_url_document_def
        example_content_document_def example_env_def)
  show ?thesis
    using a b c resolve_urls_idempotent[where doc = example_document and E = example_env]
      resolve_urls_idempotent[where doc = "example_url_document ''/a/b/contract.sol''"
        and E = example_env and doc' = "example_content_document ''contract C {}''"]
    by simp
qed

lemma prefix_contains: "prefix n s \<Longrightarrow> contains n s"
  by (cases s) auto

lemma resolve_keys_success:
  assumes "resolve_keys E ks srcs = Inr srcs'" and "k \<in> set ks"
  shows "\<exists>fo r. map_of srcs k = Some fo \<and> resolve_entry E fo = Inr r"
  using assms
proof (induction ks arbitrary: srcs)
  case Nil
  then show ?case by simp
next
  case (Cons h rest)
  from Cons.prems obtain fo where fo: "map_of srcs h = Some fo"
    by (auto split: option.splits)
  from Cons.prems fo obtain r where r: "resolve_entry E fo = Inr r"
    by (auto split: sum.splits)
  show ?case
  proof (cases "k = h")
    case True
    with fo r show ?thesis by simp
  next
    case False
    with Cons.prems have k: "k \<in> set rest" by simp
    define srcs1 where "srcs1 = (case r of None \<Rightarrow> srcs | Some v \<Rightarrow> AList.update h v srcs)"
    from Cons.prems fo r have rec: "resolve_keys E rest srcs1 = Inr srcs'"
      by (cases r) (simp_all add: srcs1_def)
    from False have "map_of srcs1 k = map_of srcs k"
      by (cases r) (simp_all add: srcs1_def update_conv')
    with Cons.IH[OF rec k] show ?thesis by simp
  qed
qed

lemma resolve_keys_first_failure:
  assumes "\<forall>k' \<in> set pre. \<exists>fo' r. map_of srcs k' = Some fo' \<and> resolve_entry E fo' = Inr r"
    and "k \<notin> set pre" and "map_of srcs k = Some fo" and "resolve_entry E fo = Inl e"
  shows "resolve_keys E (pre @ k # rest) srcs = Inl e"
  using assms
proof (induction pre arbitrary: srcs)
  case Nil
  then show ?case by simp
next
  case (Cons h pre)
  from Cons.prems obtain fo' r where fo': "map_of srcs h = Some fo'" and r: "resolve_entry E fo' = Inr r"
    by auto
  define srcs1 where "srcs1 = (case r of None \<Rightarrow> srcs | Some v \<Rightarrow> AList.update h v srcs)"
  have step: "resolve_keys E ((h # pre) @ k # rest) srcs = resolve_keys E (pre @ k # rest) srcs1"
    using fo' r by (cases r) (simp_all add: srcs1_def)
  have other: "map_of srcs1 x = map_of srcs x" if "x \<noteq> h" for x
    using that by (cases r) (simp_all add: srcs1_def update_conv')
  have same: "\<exists>fo1 r1. map_of srcs1 h = Some fo1 \<and> resolve_entry E fo1 = Inr r1"
  proof (cases r)
    case None
    with fo' r show ?thesis by (simp add: srcs1_def)
  next
    case (Some v)
    with r have "resolve_entry E v = Inr None" using resolve_entry_stable by blast
    with Some show ?thesis by (simp add: srcs1_def update_conv')
  qed
  have a: "\<forall>k' \<in> set pre. \<exists>fo' r. map_of srcs1 k' = Some fo' \<and> resolve_entry E fo' = Inr r"
  proof
    fix k' assume k': "k' \<in> set pre"
    show "\<exists>fo' r. map_of srcs1 k' = Some fo' \<and> resolve_entry E fo' = Inr r"
    proof (cases "k' = h")
      case True
      with same show ?thesis by simp
    next
      case False
      with Cons.prems(1) k' other show ?thesis by simp
    qed
  qed
  from Cons.prems have kh: "k \<noteq> h" and kp: "k \<notin> set pre" by auto
  from kh Cons.prems have b: "map_of srcs1 k = Some fo" by (simp add: other)
  show ?case unfolding step using a kp b Cons.prems(4) by (rule Cons.IH)
qed

lemma resolve_urls_entry_failure:
  assumes s: "map_of doc ''sources'' = Some (PDict srcs)" and k: "map_of srcs k = Some fo"
    and f: "resolve_entry E fo = Inl e"
  shows "\<exists>e'. resolve_urls E doc = Inl e'"
proof (cases "resolve_keys E (map fst srcs) srcs")
  case (Inl e')
  with s show ?thesis by (simp add: resolve_urls_dict)
next
  case (Inr srcs')
  from k have "k \<in> set (map fst srcs)"
    by (metis domI dom_map_of_conv_image_fst set_map)
  with Inr have "\<exists>fo r. map_of srcs k = Some fo \<and> resolve_entry E fo = Inr r"
    by (rule resolve_keys_success)
  with k f show ?thesis by simp
qed

lemma resolve_urls_first_failure:
  assumes s: "map_of doc ''sources'' = Some (PDict srcs)" and k: "map_of srcs k = Some fo"
    and f: "resolve_entry E fo = Inl e"
    and p: "\<forall>k' \<in> set (takeWhile (\<lambda>x. x \<noteq> k) (map fst srcs)).
              \<exists>fo' r. map_of srcs k' = Some fo' \<and> resolve_entry E fo' = Inr r"
  shows "resolve_urls E doc = Inl e"
proof -
  let ?ks = "map fst srcs"
  let ?pre = "takeWhile (\<lambda>x. x \<noteq> k) ?ks"
  from k have mem: "k \<in> set ?ks"
    by (metis domI dom_map_of_conv_image_fst set_map)
  then have ne: "dropWhile (\<lambda>x. x \<noteq> k) ?ks \<noteq> []" by (auto simp: dropWhile_eq_Nil_conv)
  then have "hd (dropWhile (\<lambda>x. x \<noteq> k) ?ks) = k" using hd_dropWhile[OF ne] by simp
  with ne have "dropWhile (\<lambda>x. x \<noteq> k) ?ks = k # tl (dropWhile (\<lambda>x. x \<noteq> k) ?ks)"
    by (metis list.collapse)
  then have split: "?ks = ?pre @ k # tl (dropWhile (\<lambda>x. x \<noteq> k) ?ks)"
    by (metis takeWhile_dropWhile_id)
  have notin: "k \<notin> set ?pre" by (auto dest: set_takeWhileD)
  have "resolve_keys E (?pre @ k # tl (dropWhile (\<lambda>x. x \<noteq> k) ?ks)) srcs = Inl e"
    using p notin k f by (rule resolve_keys_first_failure)
  with split have "resolve_keys E ?ks srcs = Inl e" by simp
  with s show ?thesis by (simp add: resolve_urls_dict)
qed

section \<open>Remote locations\<close>

text \<open>
  C8, as amended. A source entry whose location list ends with a location that starts
  with \<open>ipfs://\<close> or \<open>bzzr:\<close> makes URL resolution fail: the step for that entry raises
  the exception of cause \<open>UnsupportedRemoteSource\<close>, no document that holds the entry
  is ever resolved or normalised, and the exception is the one the call fails with when
  no entry before it has failed.
\<close>

theorem marked_scheme_rejected:
  assumes "url_entry fo u" and "marked_scheme u"
  shows "resolve_entry E fo = Inl (AuditlessSolcxException (RemoteNotSupported (PStr u))) \<and>
         cause_of (AuditlessSolcxException (RemoteNotSupported (PStr u))) = Some UnsupportedRemoteSource \<and>
         (map_of doc ''sources'' = Some (PDict srcs) \<and> map_of srcs k = Some fo \<longrightarrow>
            (\<exists>e. resolve_urls E doc = Inl e) \<and>
            (\<exists>e. extract_combined_json_from_compile_standard E doc bp = Inl e)) \<and>
         (map_of doc ''sources'' = Some (PDict srcs) \<and> map_of srcs k = Some fo \<and>
          (\<forall>k' \<in> set (takeWhile (\<lambda>x. x \<noteq> k) (map fst srcs)).
              \<exists>fo' r. map_of srcs k' = Some fo' \<and> resolve_entry E fo' = Inr r) \<longrightarrow>
            resolve_urls E doc = Inl (AuditlessSolcxException (RemoteNotSupported (PStr u))) \<and>
            extract_combined_json_from_compile_standard E doc bp
              = Inl (AuditlessSolcxException (RemoteNotSupported (PStr u))))"
proof -
  from assms(2) have "contains ''ipfs://'' u \<or> contains ''bzzr:'' u"
    by (auto simp: marked_scheme_def dest: prefix_contains)
  with assms(1) have r: "resolve_entry E fo = Inl (AuditlessSolcxException (RemoteNotSupported (PStr u)))"
    by (simp add: resolve_entry_url)
  have a: "(\<exists>e. resolve_urls E doc = Inl e) \<and>
           (\<exists>e. extract_combined_json_from_compile_standard E doc bp = Inl e)"
    if "map_of doc ''sources'' = Some (PDict srcs)" "map_of srcs k = Some fo"
  proof -
    from that r obtain e where "resolve_urls E doc = Inl e"
      using resolve_urls_entry_failure by blast
    then show ?thesis by (simp add: extract_combined_json_from_compile_standard_def)
  qed
  have b: "resolve_urls E doc = Inl (AuditlessSolcxException (RemoteNotSupported (PStr u))) \<and>
           extract_combined_json_from_compile_standard E doc bp
             = Inl (AuditlessSolcxException (RemoteNotSupported (PStr u)))"
    if "map_of doc ''sources'' = Some (PDict srcs)" "map_of srcs k = Some fo"
      "\<forall>k' \<in> set (takeWhile (\<lambda>x. x \<noteq> k) (map fst srcs)).
              \<exists>fo' r. map_of srcs k' = Some fo' \<and> resolve_entry E fo' = Inr r"
  proof -
    from that(1,2) r that(3)
    have "resolve_urls E doc = Inl (AuditlessSolcxException (RemoteNotSupported (PStr u)))"
      by (rule resolve_urls_first_failure)
    then show ?thesis by (simp add: extract_combined_json_from_compile_standard_def)
  qed
  from r a b show ?thesis by simp
qed


theorem marked_scheme_rejected_witness:
  "url_entry (PDict [(''urls'', PList [PStr ''/a/b.sol'', PStr ''ipfs://QmHash/b.sol''])]) ''ipfs://QmHash/b.sol'' \<and>
   marked_scheme ''ipfs://QmHash/b.sol'' \<and>
   resolve_entry example_env (PDict [(''urls'', PList [PStr ''/a/b.sol'', PStr ''ipfs://QmHash/b.sol''])])
     = Inl (AuditlessSolcxException (RemoteNotSupported (PStr ''ipfs://QmHash/b.sol''))) \<and>
   resolve_urls example_env example_remote_document
     = Inl (AuditlessSolcxException (RemoteNotSupported (PStr ''ipfs://QmHash/b.sol''))) \<and>
   extract_combined_json_from_compile_standard example_env example_remote_document PNone
     = Inl (AuditlessSolcxException (RemoteNotSupported (PStr ''ipfs://QmHash/b.sol'')))"
proof -
  let ?fo = "PDict [(''urls'', PList [PStr ''/a/b.sol'', PStr ''ipfs://QmHash/b.sol''])]"
  let ?srcs = "[(''a.sol'', PDict [(''urls'', PList [PStr ''/a/b/contract.sol''])]), (''b.sol'', ?fo)]"
  have h1: "url_entry ?fo ''ipfs://QmHash/b.sol''" by (simp add: url_entry_def)
  have h2: "marked_scheme ''ipfs://QmHash/b.sol''" by (simp add: marked_scheme_def)
  have h3: "map_of example_remote_document ''sources'' = Some (PDict ?srcs)"
    by (simp add: example_remote_document_def)
  have h4: "map_of ?srcs ''b.sol'' = Some ?fo" by simp
  have h5: "\<forall>k' \<in> set (takeWhile (\<lambda>x. x \<noteq> ''b.sol'') (map fst ?srcs)).
              \<exists>fo' r. map_of ?srcs k' = Some fo' \<and> resolve_entry example_env fo' = Inr r"
    by (simp add: resolve_entry_def is_remote_def example_env_def)
  show ?thesis
    using h1 h2 h3 h4 h5
      marked_scheme_rejected[OF h1 h2, where E = example_env and doc = example_remote_document
        and srcs = ?srcs and k = "''b.sol''" and bp = PNone]
    by simp
qed


text \<open>
  A Swarm URL of scheme \<open>bzz-raw\<close> holds neither marker: it passes the test and is
  opened as a local file, so the call fails with the exception of \<open>open\<close>. And a file
  that cannot be read, listed before an IPFS URL, fails the call before the URL is
  looked at.
\<close>

theorem storage_scheme_not_rejected:
  "storage_scheme ''bzz-raw://7d7a/c.sol'' \<and>
   url_entry (PDict [(''urls'', PList [PStr ''bzz-raw://7d7a/c.sol''])]) ''bzz-raw://7d7a/c.sol'' \<and>
   resolve_entry example_env (PDict [(''urls'', PList [PStr ''bzz-raw://7d7a/c.sol''])]) = Inl OSError \<and>
   resolve_urls example_env (example_url_document ''bzz-raw://7d7a/c.sol'') = Inl OSError \<and>
   cause_of OSError \<noteq> Some UnsupportedRemoteSource \<and>
   storage_scheme ''ipfs://QmHash/b.sol'' \<and>
   map_of example_masked_document ''sources''
     = Some (PDict [(''a.sol'', PDict [(''urls'', PList [PStr ''/a/missing.sol''])]),
                    (''b.sol'', PDict [(''urls'', PList [PStr ''ipfs://QmHash/b.sol''])])]) \<and>
   url_entry (PDict [(''urls'', PList [PStr ''ipfs://QmHash/b.sol''])]) ''ipfs://QmHash/b.sol'' \<and>
   resolve_urls example_env example_masked_document = Inl OSError"
  by (simp add: storage_scheme_def url_entry_def resolve_urls_def resolve_entry_def is_remote_def
      example_url_document_def example_masked_document_def example_env_def)

text \<open>
  C10. The test is containment: a last location that holds \<open>ipfs://\<close> or \<open>bzzr:\<close>
  anywhere, a local path included, raises the remote-source exception; a last location
  that holds neither, whatever its scheme, passes the test and is opened as a local
  file. The exception is the one URL resolution of a document fails with when no entry
  before that one has failed.
\<close>

theorem remote_test_is_containment:
  assumes "url_entry fo u"
  shows "((\<exists>p q. u = p @ ''ipfs://'' @ q) \<or> (\<exists>p q. u = p @ ''bzzr:'' @ q) \<longrightarrow>
            resolve_entry E fo = Inl (AuditlessSolcxException (RemoteNotSupported (PStr u)))) \<and>
         (\<not> ((\<exists>p q. u = p @ ''ipfs://'' @ q) \<or> (\<exists>p q. u = p @ ''bzzr:'' @ q)) \<longrightarrow>
            resolve_entry E fo =
              (case read_file E u of
                 None \<Rightarrow> Inl OSError
               | Some c \<Rightarrow> Inr (Some (PDict [(''content'', PStr c)])))) \<and>
         (((\<exists>p q. u = p @ ''ipfs://'' @ q) \<or> (\<exists>p q. u = p @ ''bzzr:'' @ q)) \<and>
          map_of doc ''sources'' = Some (PDict srcs) \<and> map_of srcs k = Some fo \<and>
          (\<forall>k' \<in> set (takeWhile (\<lambda>x. x \<noteq> k) (map fst srcs)).
              \<exists>fo' r. map_of srcs k' = Some fo' \<and> resolve_entry E fo' = Inr r) \<longrightarrow>
            resolve_urls E doc = Inl (AuditlessSolcxException (RemoteNotSupported (PStr u))))"
proof -
  have e: "resolve_entry E fo = Inl (AuditlessSolcxException (RemoteNotSupported (PStr u)))"
    if "(\<exists>p q. u = p @ ''ipfs://'' @ q) \<or> (\<exists>p q. u = p @ ''bzzr:'' @ q)"
    using assms that by (simp add: resolve_entry_url contains_iff)
  have n: "resolve_entry E fo =
              (case read_file E u of
                 None \<Rightarrow> Inl OSError
               | Some c \<Rightarrow> Inr (Some (PDict [(''content'', PStr c)])))"
    if "\<not> ((\<exists>p q. u = p @ ''ipfs://'' @ q) \<or> (\<exists>p q. u = p @ ''bzzr:'' @ q))"
    using assms that by (simp add: resolve_entry_url contains_iff)
  have d: "resolve_urls E doc = Inl (AuditlessSolcxException (RemoteNotSupported (PStr u)))"
    if c: "(\<exists>p q. u = p @ ''ipfs://'' @ q) \<or> (\<exists>p q. u = p @ ''bzzr:'' @ q)"
      and s: "map_of doc ''sources'' = Some (PDict srcs)" and k: "map_of srcs k = Some fo"
      and p: "\<forall>k' \<in> set (takeWhile (\<lambda>x. x \<noteq> k) (map fst srcs)).
              \<exists>fo' r. map_of srcs k' = Some fo' \<and> resolve_entry E fo' = Inr r"
    using s k e[OF c] p by (rule resolve_urls_first_failure)
  from e n d show ?thesis by blast
qed

theorem remote_test_is_containment_witness:
  "url_entry (PDict [(''urls'', PList [PStr ''/tmp/bzzr:old/c.sol''])]) ''/tmp/bzzr:old/c.sol'' \<and>
   resolve_entry example_env (PDict [(''urls'', PList [PStr ''/tmp/bzzr:old/c.sol''])])
     = Inl (AuditlessSolcxException (RemoteNotSupported (PStr ''/tmp/bzzr:old/c.sol''))) \<and>
   url_entry (PDict [(''urls'', PList [PStr ''https://example.com/c.sol''])]) ''https://example.com/c.sol'' \<and>
   resolve_entry example_env (PDict [(''urls'', PList [PStr ''https://example.com/c.sol''])])
     = Inl OSError \<and>
   resolve_urls example_env (example_url_document ''/tmp/bzzr:old/c.sol'')
     = Inl (AuditlessSolcxException (RemoteNotSupported (PStr ''/tmp/bzzr:old/c.sol'')))"
proof -
  let ?fo = "PDict [(''urls'', PList [PStr ''/tmp/bzzr:old/c.sol''])]"
  have g1: "map_of (example_url_document ''/tmp/bzzr:old/c.sol'') ''sources''
              = Some (PDict [(''contract.sol'', ?fo)])"
    by (simp add: example_url_document_def)
  have g2: "map_of [(''contract.sol'', ?fo)] ''contract.sol'' = Some ?fo" by simp
  have g3: "\<forall>k' \<in> set (takeWhile (\<lambda>x. x \<noteq> ''contract.sol'') (map fst [(''contract.sol'', ?fo)])).
              \<exists>fo' r. map_of [(''contract.sol'', ?fo)] k' = Some fo' \<and> resolve_entry example_env fo' = Inr r"
    by simp
  have h1: "url_entry (PDict [(''urls'', PList [PStr ''/tmp/bzzr:old/c.sol''])]) ''/tmp/bzzr:old/c.sol''"
    by (simp add: url_entry_def)
  have h2: "''/tmp/bzzr:old/c.sol'' = ''/tmp/'' @ ''bzzr:'' @ ''old/c.sol''" by simp
  then have h3: "\<exists>p q. ''/tmp/bzzr:old/c.sol'' = p @ ''bzzr:'' @ q" by blast
  have h4: "url_entry (PDict [(''urls'', PList [PStr ''https://example.com/c.sol''])]) ''https://example.com/c.sol''"
    by (simp add: url_entry_def)
  have h5: "\<not> ((\<exists>p q. ''https://example.com/c.sol'' = p @ ''ipfs://'' @ q) \<or>
                (\<exists>p q. ''https://example.com/c.sol'' = p @ ''bzzr:'' @ q))"
    unfolding contains_iff[symmetric] by simp
  have h6: "read_file example_env ''https://example.com/c.sol'' = None"
    by (simp add: example_env_def)
  show ?thesis
    using h1 h3 h4 h5 h6 g1 g2 g3
      remote_test_is_containment[OF h1, where E = example_env
        and doc = "example_url_document ''/tmp/bzzr:old/c.sol''"
        and srcs = "[(''contract.sol'', ?fo)]" and k = "''contract.sol''"]
      remote_test_is_containment[OF h4, where E = example_env]
    by simp
qed


section \<open>Local locations\<close>

text \<open>
  C3, as amended. A source entry whose location list ends with a location that passes
  the remote test and that \<open>open\<close> and \<open>read\<close> can read is replaced by its literal
  content, empty or not, and the location list is gone: the step for the entry assigns
  \<open>{"content": c}\<close>, and a resolved document holds exactly that under the entry's key.
\<close>

theorem local_location_read:
  assumes "url_entry fo u" and "\<not> contains ''ipfs://'' u" and "\<not> contains ''bzzr:'' u"
    and "read_file E u = Some c"
  shows "resolve_entry E fo = Inr (Some (PDict [(''content'', PStr c)])) \<and>
         (map_of doc ''sources'' = Some (PDict srcs) \<and> map_of srcs k = Some fo \<and>
          resolve_urls E doc = Inr doc' \<longrightarrow>
            (\<exists>srcs'. map_of doc' ''sources'' = Some (PDict srcs') \<and>
                     map fst srcs' = map fst srcs \<and>
                     map_of srcs' k = Some (PDict [(''content'', PStr c)])))"
proof -
  from assms have r: "resolve_entry E fo = Inr (Some (PDict [(''content'', PStr c)]))"
    by (simp add: resolve_entry_url)
  have "\<exists>srcs'. map_of doc' ''sources'' = Some (PDict srcs') \<and> map fst srcs' = map fst srcs \<and>
                map_of srcs' k = Some (PDict [(''content'', PStr c)])"
    if s: "map_of doc ''sources'' = Some (PDict srcs)" and k: "map_of srcs k = Some fo"
      and d: "resolve_urls E doc = Inr doc'"
  proof -
    from s d obtain srcs' where ks: "resolve_keys E (map fst srcs) srcs = Inr srcs'"
      and d': "doc' = AList.update ''sources'' (PDict srcs') doc"
      by (auto simp: resolve_urls_dict split: sum.splits)
    from k have "k \<in> set (map fst srcs)"
      by (metis domI dom_map_of_conv_image_fst set_map)
    then have "map_of srcs' k = Some (PDict [(''content'', PStr c)])"
      using resolve_keys_lookup[OF ks, of k] k r by simp
    moreover have "map fst srcs' = map fst srcs" using ks by (rule resolve_keys_keys)
    moreover from d' have "map_of doc' ''sources'' = Some (PDict srcs')" by (simp add: update_conv')
    ultimately show ?thesis by blast
  qed
  with r show ?thesis by blast
qed

theorem local_location_read_witness:
  "url_entry (PDict [(''urls'', PList [PStr ''/a/b/contract.sol''])]) ''/a/b/contract.sol'' \<and>
   \<not> contains ''ipfs://'' ''/a/b/contract.sol'' \<and> \<not> contains ''bzzr:'' ''/a/b/contract.sol'' \<and>
   read_file example_env ''/a/b/contract.sol'' = Some ''contract C {}'' \<and>
   resolve_entry example_env (PDict [(''urls'', PList [PStr ''/a/b/contract.sol''])])
     = Inr (Some (PDict [(''content'', PStr ''contract C {}'')])) \<and>
   resolve_urls example_env (example_url_document ''/a/b/contract.sol'')
     = Inr (example_content_document ''contract C {}'') \<and>
   (\<exists>srcs'. map_of (example_content_document ''contract C {}'') ''sources'' = Some (PDict srcs') \<and>
            map fst srcs' = [''contract.sol''] \<and>
            map_of srcs' ''contract.sol'' = Some (PDict [(''content'', PStr ''contract C {}'')]))"
proof -
  let ?fo = "PDict [(''urls'', PList [PStr ''/a/b/contract.sol''])]"
  have h1: "url_entry ?fo ''/a/b/contract.sol''"
    by (simp add: url_entry_def)
  have h2: "\<not> contains ''ipfs://'' ''/a/b/contract.sol''" by simp
  have h3: "\<not> contains ''bzzr:'' ''/a/b/contract.sol''" by simp
  have h4: "read_file example_env ''/a/b/contract.sol'' = Some ''contract C {}''"
    by (simp add: example_env_def)
  have h5: "map_of (example_url_document ''/a/b/contract.sol'') ''sources''
              = Some (PDict [(''contract.sol'', ?fo)])"
    by (simp add: example_url_document_def)
  have h6: "map_of [(''contract.sol'', ?fo)] ''contract.sol'' = Some ?fo" by simp
  have h7: "resolve_urls example_env (example_url_document ''/a/b/contract.sol'')
              = Inr (example_content_document ''contract C {}'')"
    by (simp add: resolve_urls_def resolve_entry_def is_remote_def example_url_document_def
        example_content_document_def example_env_def)
  show ?thesis
    using h1 h2 h3 h4 h5 h6 h7
      local_location_read[OF h1 h2 h3 h4, where doc = "example_url_document ''/a/b/contract.sol''"
        and srcs = "[(''contract.sol'', ?fo)]" and k = "''contract.sol''"
        and doc' = "example_content_document ''contract C {}''"]
    by simp
qed


text \<open>
  An empty file is read as empty content and the call does not fail; a file that cannot
  be read fails the call with the exception of \<open>open\<close>.
\<close>

theorem empty_file_is_content:
  "read_file example_env ''/a/empty.sol'' = Some [] \<and>
   resolve_urls example_env (example_url_document ''/a/empty.sol'') = Inr (example_content_document []) \<and>
   read_file example_env ''/a/missing.sol'' = None \<and>
   resolve_urls example_env (example_url_document ''/a/missing.sol'') = Inl OSError"
  by (simp add: resolve_urls_def resolve_entry_def is_remote_def example_url_document_def
      example_content_document_def example_env_def)

section \<open>Facts about the writer and the wrappers\<close>

lemma save_artifacts_calls: "calls (snd (save_artifacts E doc ver W)) = calls W"
  by (simp add: save_artifacts_def Let_def)

lemma save_artifacts_ok:
  assumes "can_create E (artifact_name E W)" and "serialisable (artifact doc ver)"
  shows "save_artifacts E doc ver W =
           (Inr (), W\<lparr>draws := Suc (draws W),
                      build_info := (build_info W)(artifact_name E W \<mapsto> Json (artifact doc ver))\<rparr>)"
  using assms by (simp add: save_artifacts_def Let_def)

lemma save_artifacts_closed:
  assumes "\<not> can_create E (artifact_name E W)"
  shows "save_artifacts E doc ver W = (Inl OSError, W\<lparr>draws := Suc (draws W)\<rparr>)"
  using assms by (simp add: save_artifacts_def Let_def)

lemma save_artifacts_truncated:
  assumes "can_create E (artifact_name E W)" and "\<not> serialisable (artifact doc ver)"
  shows "save_artifacts E doc ver W =
           (Inl TypeError, W\<lparr>draws := Suc (draws W),
                             build_info := (build_info W)(artifact_name E W \<mapsto> Truncated)\<rparr>)"
  using assms by (simp add: save_artifacts_def Let_def)

lemma serialisable_artifact: "serialisable (artifact doc ver) = serialisable (PDict doc)"
  by (simp add: artifact_def)

section \<open>Round trip of a standard-JSON document\<close>

text \<open>
  C1. A call of the wrapped \<open>compile_standard\<close> with a canonical document whose source
  entries all carry literal content, and with an explicit compiler version: every file
  the call writes is the artifact whose \<open>input\<close> is the supplied document, as it is,
  and whose \<open>solcVersion\<close> is the explicit version; and the call does write it when no
  base path is given and the file can be created.
\<close>

theorem compile_standard_artifact_roundtrip:
  assumes "canonical_document (input_data a)" and "solc_version a = Some v"
  shows "(\<forall>n. build_info (snd (compile_standard E a W)) n = build_info W n \<or>
              build_info (snd (compile_standard E a W)) n = Some (Json (artifact (input_data a) v))) \<and>
         (base_path a = PNone \<and> can_create E (artifact_name E W) \<longrightarrow>
            build_info (snd (compile_standard E a W)) (artifact_name E W)
              = Some (Json (artifact (input_data a) v))) \<and>
         getitem_str (artifact (input_data a) v) ''input'' = Inr (PDict (input_data a)) \<and>
         getitem_str (artifact (input_data a) v) ''solcVersion'' = Inr (PStr v)"
proof -
  from assms(1) have r: "resolve_urls E (input_data a) = Inr (input_data a)"
    by (simp add: canonical_document_def resolved_document_noop)
  from assms(1) have s: "serialisable (artifact (input_data a) v)"
    by (simp add: canonical_document_def serialisable_artifact)
  from assms(2) have d: "determine_solidity_version E (solc_binary a) (solc_version a) = Inr v"
    by (simp add: determine_solidity_version_def)
  show ?thesis
  proof (cases "base_path a = PNone")
    case False
    with r have "compile_standard E a W = (Inl (AuditlessSolcxException BasePathProvided), W)"
      by (simp add: compile_standard_def extract_combined_json_from_compile_standard_def)
    with False show ?thesis by (simp add: artifact_def)
  next
    case True
    note bp = True
    with r have x: "extract_combined_json_from_compile_standard E (input_data a) (base_path a)
                      = Inr (input_data a)"
      by (simp add: extract_combined_json_from_compile_standard_def)
    show ?thesis
    proof (cases "can_create E (artifact_name E W)")
      case False
      then show ?thesis
        using x d bp by (simp add: compile_standard_def save_artifacts_closed artifact_def)
    next
      case True
      then show ?thesis
        using x d s bp by (simp add: compile_standard_def save_artifacts_ok Let_def artifact_def)
    qed
  qed
qed

theorem compile_standard_artifact_roundtrip_witness:
  "canonical_document example_document \<and>
   build_info (snd (compile_standard example_env
       (example_standard_args example_document (Some ''0.7.6'')) example_world))
     (artifact_name example_env example_world)
     = Some (Json (PDict [(''_format'', PStr ''hh-sol-build-info-1''),
                          (''solcVersion'', PStr ''0.7.6''),
                          (''input'', PDict example_document)]))"
proof -
  let ?a = "example_standard_args example_document (Some ''0.7.6'')"
  have h1: "canonical_document (input_data ?a)"
    by (simp add: canonical_document_def resolved_document_def content_entry_def
        example_document_def example_standard_args_def)
  have h2: "solc_version ?a = Some ''0.7.6''" by (simp add: example_standard_args_def)
  have h3: "base_path ?a = PNone \<and> can_create example_env (artifact_name example_env example_world)"
    by (simp add: example_standard_args_def example_env_def)
  have h4: "input_data ?a = example_document" by (simp add: example_standard_args_def)
  show ?thesis
    using h1 h3 h4 compile_standard_artifact_roundtrip[OF h1 h2, where E = example_env and W = example_world]
    by (simp add: artifact_def)
qed


section \<open>Delegation to the original entry points\<close>

lemma compile_standard_invoked:
  assumes "extract_combined_json_from_compile_standard E (input_data s) (base_path s) = Inr doc"
    and "determine_solidity_version E (solc_binary s) (solc_version s) = Inr ver"
    and "fst (save_artifacts E doc ver W) = Inr ()"
  shows "fst (compile_standard E s W)
           = solcx_compile_standard E (s\<lparr>input_data := doc, solc_version := Some ver\<rparr>) \<and>
         calls (snd (compile_standard E s W))
           = calls W @ [CompileStandard (s\<lparr>input_data := doc, solc_version := Some ver\<rparr>)]"
proof -
  obtain r W1 where sa: "save_artifacts E doc ver W = (r, W1)" by (cases "save_artifacts E doc ver W")
  with assms(3) have r: "r = Inr ()" by simp
  from sa have "calls W1 = calls W" using save_artifacts_calls[of E doc ver W] by simp
  with assms(1,2) sa r show ?thesis by (simp add: compile_standard_def Let_def)
qed

lemma compile_combined_json_invoked:
  assumes "extract_combined_json_from_compile_combined_json E c = Inr doc"
    and "determine_solidity_version E (solc_binary c) (solc_version c) = Inr ver"
    and "fst (save_artifacts E doc ver W) = Inr ()"
  shows "fst (compile_combined_json E c [] W) = Inr () \<and>
         calls (snd (compile_combined_json E c [] W)) = calls W"
  using assms by (simp add: compile_combined_json_def save_artifacts_calls)

lemma forwarded_binary [simp]: "solc_binary (forwarded a f s) = solc_binary a"
  by (simp add: forwarded_def)

lemma forwarded_version [simp]: "solc_version (forwarded a f s) = solc_version a"
  by (simp add: forwarded_def)

lemma compile_files_invoked:
  assumes "extract_combined_json_from_compile_combined_json E (forwarded a files PNone) = Inr doc"
    and "determine_solidity_version E (solc_binary a) (solc_version a) = Inr ver"
    and "fst (save_artifacts E doc ver W) = Inr ()"
  shows "fst (compile_files E files a W) = solcx_compile_files E files a \<and>
         calls (snd (compile_files E files a W)) = calls W @ [CompileFiles files a]"
proof -
  obtain r W1 where c: "compile_combined_json E (forwarded a files PNone) [] W = (r, W1)"
    by (cases "compile_combined_json E (forwarded a files PNone) [] W")
  with compile_combined_json_invoked[of E "forwarded a files PNone" doc ver W] assms
  have "r = Inr ()" "calls W1 = calls W" by simp_all
  with c show ?thesis by (simp add: compile_files_def)
qed

lemma compile_source_invoked:
  assumes "extract_combined_json_from_compile_combined_json E (forwarded a PNone source) = Inr doc"
    and "determine_solidity_version E (solc_binary a) (solc_version a) = Inr ver"
    and "fst (save_artifacts E doc ver W) = Inr ()"
  shows "fst (compile_source E source a W) = solcx_compile_source E source a \<and>
         calls (snd (compile_source E source a W)) = calls W @ [CompileSource source a]"
proof -
  obtain r W1 where c: "compile_combined_json E (forwarded a PNone source) [] W = (r, W1)"
    by (cases "compile_combined_json E (forwarded a PNone source) [] W")
  with compile_combined_json_invoked[of E "forwarded a PNone source" doc ver W] assms
  have "r = Inr ()" "calls W1 = calls W" by simp_all
  with c show ?thesis by (simp add: compile_source_def)
qed

text \<open>
  C2, as amended. Once normalisation, version resolution and persistence have
  succeeded, \<open>compile_files\<close> and \<open>compile_source\<close> call the original entry point with
  the arguments they were given and return its result. \<open>compile_standard\<close> calls the
  original with the resolved document and the determined version in the place of
  \<open>input_data\<close> and \<open>solc_version\<close>, and returns its result; these are the arguments it
  was given when the document needed no resolution and a version was supplied.
\<close>

theorem wrappers_delegate:
  "(extract_combined_json_from_compile_combined_json E (forwarded a files PNone) = Inr doc \<and>
    determine_solidity_version E (solc_binary a) (solc_version a) = Inr ver \<and>
    fst (save_artifacts E doc ver W) = Inr () \<longrightarrow>
      fst (compile_files E files a W) = solcx_compile_files E files a \<and>
      calls (snd (compile_files E files a W)) = calls W @ [CompileFiles files a]) \<and>
   (extract_combined_json_from_compile_combined_json E (forwarded a PNone source) = Inr doc \<and>
    determine_solidity_version E (solc_binary a) (solc_version a) = Inr ver \<and>
    fst (save_artifacts E doc ver W) = Inr () \<longrightarrow>
      fst (compile_source E source a W) = solcx_compile_source E source a \<and>
      calls (snd (compile_source E source a W)) = calls W @ [CompileSource source a]) \<and>
   (extract_combined_json_from_compile_standard E (input_data s) (base_path s) = Inr doc \<and>
    determine_solidity_version E (solc_binary s) (solc_version s) = Inr ver \<and>
    fst (save_artifacts E doc ver W) = Inr () \<longrightarrow>
      fst (compile_standard E s W)
        = solcx_compile_standard E (s\<lparr>input_data := doc, solc_version := Some ver\<rparr>) \<and>
      calls (snd (compile_standard E s W))
        = calls W @ [CompileStandard (s\<lparr>input_data := doc, solc_version := Some ver\<rparr>)] \<and>
      (resolved_document (input_data s) \<and> solc_version s \<noteq> None \<longrightarrow>
         s\<lparr>input_data := doc, solc_version := Some ver\<rparr> = s))"
proof -
  have "s\<lparr>input_data := doc, solc_version := Some ver\<rparr> = s"
    if x: "extract_combined_json_from_compile_standard E (input_data s) (base_path s) = Inr doc"
      and d: "determine_solidity_version E (solc_binary s) (solc_version s) = Inr ver"
      and r: "resolved_document (input_data s)" and v: "solc_version s \<noteq> None"
  proof -
    from r have "resolve_urls E (input_data s) = Inr (input_data s)" by (rule resolved_document_noop)
    with x have "doc = input_data s"
      by (simp add: extract_combined_json_from_compile_standard_def split: if_splits)
    moreover from d v have "solc_version s = Some ver"
      by (auto simp: determine_solidity_version_def)
    ultimately show ?thesis by simp
  qed
  then show ?thesis
    using compile_files_invoked compile_source_invoked compile_standard_invoked by blast
qed


lemmas normaliser_defs =
  extract_combined_json_from_compile_combined_json_def extract_combined_json_from_compile_standard_def
  forwarded_def metadata_of_def optimizer_of_def merge_def ensure_dict_def set_in_def set_yul_def
  resolve_urls_def resolve_entry_def is_remote_def determine_solidity_version_def path_name_def

lemmas example_defs =
  example_env_def example_world_def example_solidity_args_def example_standard_args_def
  example_document_def example_url_document_def example_content_document_def
  example_remote_document_def example_stdin_document_def example_path_document_def
  example_readonly_env_def example_no_solc_env_def

lemmas writer_defs = save_artifacts_def artifact_def artifact_name_def

text \<open>
  A document with a location list and no explicit version: the original
  \<open>compile_standard\<close> receives the document with the file's content and the version 0.7.6.
\<close>

theorem compile_standard_changes_arguments:
  "fst (compile_standard example_env
          (example_standard_args (example_url_document ''/a/b/contract.sol'') None) example_world)
     = Inr (PDict [(''contracts'', PDict [])]) \<and>
   calls (snd (compile_standard example_env
          (example_standard_args (example_url_document ''/a/b/contract.sol'') None) example_world))
     = [CompileStandard (example_standard_args (example_content_document ''contract C {}'') (Some ''0.7.6''))] \<and>
   example_standard_args (example_content_document ''contract C {}'') (Some ''0.7.6'')
     \<noteq> example_standard_args (example_url_document ''/a/b/contract.sol'') None"
  by (simp add: compile_standard_def normaliser_defs example_defs writer_defs Let_def)

theorem wrappers_delegate_witness:
  "fst (compile_files example_env (PStr ''/a/b/contract.sol'') example_solidity_args example_world)
     = Inr (PDict []) \<and>
   calls (snd (compile_files example_env (PStr ''/a/b/contract.sol'') example_solidity_args example_world))
     = [CompileFiles (PStr ''/a/b/contract.sol'') example_solidity_args] \<and>
   fst (compile_source example_env (PStr ''contract C {}'') example_solidity_args example_world)
     = Inr (PDict []) \<and>
   calls (snd (compile_source example_env (PStr ''contract C {}'') example_solidity_args example_world))
     = [CompileSource (PStr ''contract C {}'') example_solidity_args] \<and>
   fst (compile_standard example_env (example_standard_args example_document (Some ''0.7.6'')) example_world)
     = Inr (PDict [(''contracts'', PDict [])]) \<and>
   calls (snd (compile_standard example_env (example_standard_args example_document (Some ''0.7.6'')) example_world))
     = [CompileStandard (example_standard_args example_document (Some ''0.7.6''))]"
proof -
  let ?s = "example_standard_args example_document (Some ''0.7.6'')"
  have f1: "extract_combined_json_from_compile_combined_json example_env
              (forwarded example_solidity_args (PStr ''/a/b/contract.sol'') PNone)
              = Inr (example_content_document ''contract C {}'')"
    by (simp add: normaliser_defs example_defs)
  have s1: "extract_combined_json_from_compile_combined_json example_env
              (forwarded example_solidity_args PNone (PStr ''contract C {}''))
              = Inr (example_stdin_document (PStr ''contract C {}'') [])"
    by (simp add: normaliser_defs example_defs)
  have v: "determine_solidity_version example_env (solc_binary example_solidity_args)
             (solc_version example_solidity_args) = Inr ''0.7.6''"
    by (simp add: normaliser_defs example_defs)
  have f3: "fst (save_artifacts example_env (example_content_document ''contract C {}'') ''0.7.6'' example_world) = Inr ()"
    by (simp add: writer_defs example_defs Let_def)
  have s3: "fst (save_artifacts example_env (example_stdin_document (PStr ''contract C {}'') []) ''0.7.6'' example_world) = Inr ()"
    by (simp add: writer_defs example_defs Let_def)
  have t1: "extract_combined_json_from_compile_standard example_env (input_data ?s) (base_path ?s)
              = Inr example_document"
    by (simp add: normaliser_defs example_defs)
  have t2: "determine_solidity_version example_env (solc_binary ?s) (solc_version ?s) = Inr ''0.7.6''"
    by (simp add: normaliser_defs example_defs)
  have t3: "fst (save_artifacts example_env example_document ''0.7.6'' example_world) = Inr ()"
    by (simp add: writer_defs example_defs Let_def)
  have t4: "resolved_document (input_data ?s) \<and> solc_version ?s \<noteq> None"
    by (simp add: resolved_document_def content_entry_def example_defs)
  have e: "solcx_compile_files example_env (PStr ''/a/b/contract.sol'') example_solidity_args = Inr (PDict [])"
    "solcx_compile_source example_env (PStr ''contract C {}'') example_solidity_args = Inr (PDict [])"
    "solcx_compile_standard example_env ?s = Inr (PDict [(''contracts'', PDict [])])"
    "calls example_world = []"
    by (simp_all add: example_env_def example_world_def)
  show ?thesis
    using f1 s1 v f3 s3 t1 t2 t3 t4 e
      wrappers_delegate[where E = example_env and W = example_world and a = example_solidity_args
        and files = "PStr ''/a/b/contract.sol''" and doc = "example_content_document ''contract C {}''"
        and ver = "''0.7.6''"]
      wrappers_delegate[where E = example_env and W = example_world and a = example_solidity_args
        and source = "PStr ''contract C {}''"
        and doc = "example_stdin_document (PStr ''contract C {}'') []" and ver = "''0.7.6''"]
      wrappers_delegate[where E = example_env and W = example_world and s = ?s
        and doc = example_document and ver = "''0.7.6''"]
    by simp
qed


section \<open>Failed calls\<close>

lemma save_artifacts_failure:
  assumes "fst (save_artifacts E doc ver W) = Inl e"
  shows "calls (snd (save_artifacts E doc ver W)) = calls W \<and>
         build_info (snd (save_artifacts E doc ver W))
           = (if can_create E (artifact_name E W)
              then (build_info W)(artifact_name E W \<mapsto> Truncated)
              else build_info W)"
  using assms by (simp add: save_artifacts_def Let_def split: if_splits)

lemma compile_standard_not_prepared:
  assumes "extract_combined_json_from_compile_standard E (input_data s) (base_path s) = Inl e \<or>
           (extract_combined_json_from_compile_standard E (input_data s) (base_path s) = Inr doc \<and>
            determine_solidity_version E (solc_binary s) (solc_version s) = Inl e)"
  shows "compile_standard E s W = (Inl e, W)"
  using assms by (auto simp: compile_standard_def)

lemma compile_standard_not_saved:
  assumes "extract_combined_json_from_compile_standard E (input_data s) (base_path s) = Inr doc"
    and "determine_solidity_version E (solc_binary s) (solc_version s) = Inr ver"
    and "fst (save_artifacts E doc ver W) = Inl e"
  shows "fst (compile_standard E s W) = Inl e \<and>
         calls (snd (compile_standard E s W)) = calls W \<and>
         build_info (snd (compile_standard E s W))
           = (if can_create E (artifact_name E W)
              then (build_info W)(artifact_name E W \<mapsto> Truncated)
              else build_info W)"
proof -
  obtain r W1 where sa: "save_artifacts E doc ver W = (r, W1)" by (cases "save_artifacts E doc ver W")
  with assms(3) have r: "r = Inl e" by simp
  from sa r assms(1,2) have "compile_standard E s W = (Inl e, W1)"
    by (simp add: compile_standard_def)
  with save_artifacts_failure[OF assms(3)] sa show ?thesis by simp
qed

lemma compile_combined_json_not_prepared:
  assumes "extract_combined_json_from_compile_combined_json E c = Inl e \<or>
           (extract_combined_json_from_compile_combined_json E c = Inr doc \<and>
            determine_solidity_version E (solc_binary c) (solc_version c) = Inl e)"
  shows "compile_combined_json E c [] W = (Inl e, W)"
  using assms by (auto simp: compile_combined_json_def)

lemma compile_combined_json_not_saved:
  assumes "extract_combined_json_from_compile_combined_json E c = Inr doc"
    and "determine_solidity_version E (solc_binary c) (solc_version c) = Inr ver"
  shows "compile_combined_json E c [] W = save_artifacts E doc ver W"
  using assms by (simp add: compile_combined_json_def)

text \<open>
  C7, as amended. When normalisation or version resolution fails, the call fails with
  that error and changes nothing: no file, no call of the original entry point. When
  the writer fails, the call fails with the writer's error and the original entry point
  is not called; no file is written when the file could not be created, and the file is
  left unfinished when \<open>json.dump\<close> raised after it was created.
\<close>

theorem failed_call_effects:
  "(extract_combined_json_from_compile_standard E (input_data s) (base_path s) = Inl e \<or>
    (extract_combined_json_from_compile_standard E (input_data s) (base_path s) = Inr doc \<and>
     determine_solidity_version E (solc_binary s) (solc_version s) = Inl e) \<longrightarrow>
      compile_standard E s W = (Inl e, W)) \<and>
   (extract_combined_json_from_compile_standard E (input_data s) (base_path s) = Inr doc \<and>
    determine_solidity_version E (solc_binary s) (solc_version s) = Inr ver \<and>
    fst (save_artifacts E doc ver W) = Inl e \<longrightarrow>
      fst (compile_standard E s W) = Inl e \<and>
      calls (snd (compile_standard E s W)) = calls W \<and>
      build_info (snd (compile_standard E s W))
        = (if can_create E (artifact_name E W)
           then (build_info W)(artifact_name E W \<mapsto> Truncated)
           else build_info W)) \<and>
   (extract_combined_json_from_compile_combined_json E (forwarded a files PNone) = Inl e \<or>
    (extract_combined_json_from_compile_combined_json E (forwarded a files PNone) = Inr doc \<and>
     determine_solidity_version E (solc_binary a) (solc_version a) = Inl e) \<longrightarrow>
      compile_files E files a W = (Inl e, W)) \<and>
   (extract_combined_json_from_compile_combined_json E (forwarded a files PNone) = Inr doc \<and>
    determine_solidity_version E (solc_binary a) (solc_version a) = Inr ver \<and>
    fst (save_artifacts E doc ver W) = Inl e \<longrightarrow>
      fst (compile_files E files a W) = Inl e \<and>
      calls (snd (compile_files E files a W)) = calls W \<and>
      build_info (snd (compile_files E files a W))
        = (if can_create E (artifact_name E W)
           then (build_info W)(artifact_name E W \<mapsto> Truncated)
           else build_info W)) \<and>
   (extract_combined_json_from_compile_combined_json E (forwarded a PNone source) = Inl e \<or>
    (extract_combined_json_from_compile_combined_json E (forwarded a PNone source) = Inr doc \<and>
     determine_solidity_version E (solc_binary a) (solc_version a) = Inl e) \<longrightarrow>
      compile_source E source a W = (Inl e, W)) \<and>
   (extract_combined_json_from_compile_combined_json E (forwarded a PNone source) = Inr doc \<and>
    determine_solidity_version E (solc_binary a) (solc_version a) = Inr ver \<and>
    fst (save_artifacts E doc ver W) = Inl e \<longrightarrow>
      fst (compile_source E source a W) = Inl e \<and>
      calls (snd (compile_source E source a W)) = calls W \<and>
      build_info (snd (compile_source E source a W))
        = (if can_create E (artifact_name E W)
           then (build_info W)(artifact_name E W \<mapsto> Truncated)
           else build_info W))"
proof -
  have files1: "compile_files E files a W = (Inl e, W)"
    if "extract_combined_json_from_compile_combined_json E (forwarded a files PNone) = Inl e \<or>
        (extract_combined_json_from_compile_combined_json E (forwarded a files PNone) = Inr doc \<and>
         determine_solidity_version E (solc_binary a) (solc_version a) = Inl e)"
    using compile_combined_json_not_prepared[of E "forwarded a files PNone" e doc W] that
    by (simp add: compile_files_def)
  have source1: "compile_source E source a W = (Inl e, W)"
    if "extract_combined_json_from_compile_combined_json E (forwarded a PNone source) = Inl e \<or>
        (extract_combined_json_from_compile_combined_json E (forwarded a PNone source) = Inr doc \<and>
         determine_solidity_version E (solc_binary a) (solc_version a) = Inl e)"
    using compile_combined_json_not_prepared[of E "forwarded a PNone source" e doc W] that
    by (simp add: compile_source_def)
  have files2: "fst (compile_files E files a W) = Inl e \<and>
      calls (snd (compile_files E files a W)) = calls W \<and>
      build_info (snd (compile_files E files a W))
        = (if can_create E (artifact_name E W)
           then (build_info W)(artifact_name E W \<mapsto> Truncated)
           else build_info W)"
    if x: "extract_combined_json_from_compile_combined_json E (forwarded a files PNone) = Inr doc"
      and d: "determine_solidity_version E (solc_binary a) (solc_version a) = Inr ver"
      and w: "fst (save_artifacts E doc ver W) = Inl e"
  proof -
    have c: "compile_combined_json E (forwarded a files PNone) [] W = save_artifacts E doc ver W"
      using x d by (simp add: compile_combined_json_not_saved)
    obtain r W1 where sa: "save_artifacts E doc ver W = (r, W1)"
      by (cases "save_artifacts E doc ver W")
    with w have "r = Inl e" by simp
    with c sa have "compile_files E files a W = (Inl e, W1)" by (simp add: compile_files_def)
    with save_artifacts_failure[OF w] sa show ?thesis by simp
  qed
  have source2: "fst (compile_source E source a W) = Inl e \<and>
      calls (snd (compile_source E source a W)) = calls W \<and>
      build_info (snd (compile_source E source a W))
        = (if can_create E (artifact_name E W)
           then (build_info W)(artifact_name E W \<mapsto> Truncated)
           else build_info W)"
    if x: "extract_combined_json_from_compile_combined_json E (forwarded a PNone source) = Inr doc"
      and d: "determine_solidity_version E (solc_binary a) (solc_version a) = Inr ver"
      and w: "fst (save_artifacts E doc ver W) = Inl e"
  proof -
    have c: "compile_combined_json E (forwarded a PNone source) [] W = save_artifacts E doc ver W"
      using x d by (simp add: compile_combined_json_not_saved)
    obtain r W1 where sa: "save_artifacts E doc ver W = (r, W1)"
      by (cases "save_artifacts E doc ver W")
    with w have "r = Inl e" by simp
    with c sa have "compile_source E source a W = (Inl e, W1)" by (simp add: compile_source_def)
    with save_artifacts_failure[OF w] sa show ?thesis by simp
  qed
  show ?thesis
    using compile_standard_not_prepared[of E s e doc W] compile_standard_not_saved[of E s doc ver W e]
      files1 files2 source1 source2
    by blast
qed


theorem failed_call_effects_witness:
  "compile_standard example_env (example_standard_args example_remote_document (Some ''0.7.6'')) example_world
     = (Inl (AuditlessSolcxException (RemoteNotSupported (PStr ''ipfs://QmHash/b.sol''))), example_world) \<and>
   fst (compile_standard example_readonly_env (example_standard_args example_document (Some ''0.7.6'')) example_world)
     = Inl OSError \<and>
   calls (snd (compile_standard example_readonly_env
                 (example_standard_args example_document (Some ''0.7.6'')) example_world)) = [] \<and>
   build_info (snd (compile_standard example_readonly_env
                 (example_standard_args example_document (Some ''0.7.6'')) example_world))
     = build_info example_world \<and>
   compile_files example_no_solc_env (PStr ''/a/b/contract.sol'')
       (example_solidity_args\<lparr>solc_version := None\<rparr>) example_world
     = (Inl (SolcxError ''SolcNotInstalled''), example_world) \<and>
   build_info (snd (compile_files example_readonly_env (PStr ''/a/b/contract.sol'')
                      example_solidity_args example_world))
     = build_info example_world \<and>
   compile_source example_env (PStr ''contract C {}'')
       (example_solidity_args\<lparr>yul_optimizations := PInt 1\<rparr>) example_world
     = (Inl (AuditlessSolcxException YulNotSupported), example_world) \<and>
   fst (compile_source example_env (PStr ''contract C {}'')
          (example_solidity_args\<lparr>revert_strings := PList [PPath ''/x'']\<rparr>) example_world)
     = Inl TypeError \<and>
   calls (snd (compile_source example_env (PStr ''contract C {}'')
          (example_solidity_args\<lparr>revert_strings := PList [PPath ''/x'']\<rparr>) example_world)) = [] \<and>
   build_info (snd (compile_source example_env (PStr ''contract C {}'')
          (example_solidity_args\<lparr>revert_strings := PList [PPath ''/x'']\<rparr>) example_world))
       (artifact_name example_env example_world)
     = Some Truncated"
proof -
  let ?s1 = "example_standard_args example_remote_document (Some ''0.7.6'')"
  let ?s2 = "example_standard_args example_document (Some ''0.7.6'')"
  let ?a3 = "example_solidity_args\<lparr>solc_version := None\<rparr>"
  let ?a5 = "example_solidity_args\<lparr>yul_optimizations := PInt 1\<rparr>"
  let ?a6 = "example_solidity_args\<lparr>revert_strings := PList [PPath ''/x'']\<rparr>"
  let ?d6 = "example_stdin_document (PStr ''contract C {}'')
               [(''debug'', PDict [(''revertStrings'', PList [PPath ''/x''])])]"
  let ?f = "PStr ''/a/b/contract.sol''"
  let ?c = "PStr ''contract C {}''"
  have h1: "extract_combined_json_from_compile_standard example_env (input_data ?s1) (base_path ?s1)
              = Inl (AuditlessSolcxException (RemoteNotSupported (PStr ''ipfs://QmHash/b.sol'')))"
    by (simp add: normaliser_defs example_defs)
  have h2: "extract_combined_json_from_compile_standard example_readonly_env (input_data ?s2) (base_path ?s2)
              = Inr example_document \<and>
            determine_solidity_version example_readonly_env (solc_binary ?s2) (solc_version ?s2) = Inr ''0.7.6'' \<and>
            fst (save_artifacts example_readonly_env example_document ''0.7.6'' example_world) = Inl OSError"
    by (simp add: normaliser_defs example_defs writer_defs Let_def)
  have h3: "extract_combined_json_from_compile_combined_json example_no_solc_env (forwarded ?a3 ?f PNone)
              = Inr (example_content_document ''contract C {}'') \<and>
            determine_solidity_version example_no_solc_env (solc_binary ?a3) (solc_version ?a3)
              = Inl (SolcxError ''SolcNotInstalled'')"
    by (simp add: normaliser_defs example_defs)
  have h4: "extract_combined_json_from_compile_combined_json example_readonly_env
                (forwarded example_solidity_args ?f PNone)
              = Inr (example_content_document ''contract C {}'') \<and>
            determine_solidity_version example_readonly_env (solc_binary example_solidity_args)
                (solc_version example_solidity_args) = Inr ''0.7.6'' \<and>
            fst (save_artifacts example_readonly_env (example_content_document ''contract C {}'')
                   ''0.7.6'' example_world) = Inl OSError"
    by (simp add: normaliser_defs example_defs writer_defs Let_def)
  have h5: "extract_combined_json_from_compile_combined_json example_env (forwarded ?a5 PNone ?c)
              = Inl (AuditlessSolcxException YulNotSupported)"
    by (simp add: normaliser_defs example_defs)
  have h6: "extract_combined_json_from_compile_combined_json example_env (forwarded ?a6 PNone ?c) = Inr ?d6 \<and>
            determine_solidity_version example_env (solc_binary ?a6) (solc_version ?a6) = Inr ''0.7.6'' \<and>
            fst (save_artifacts example_env ?d6 ''0.7.6'' example_world) = Inl TypeError"
    by (simp add: normaliser_defs example_defs writer_defs Let_def)
  have c: "can_create example_env (artifact_name example_env example_world)"
    "\<not> can_create example_readonly_env (artifact_name example_readonly_env example_world)"
    "calls example_world = []"
    by (simp_all add: example_defs)
  show ?thesis
    using h1 h2 h3 h4 h5 h6 c
      failed_call_effects[where E = example_env and W = example_world and s = ?s1
        and e = "AuditlessSolcxException (RemoteNotSupported (PStr ''ipfs://QmHash/b.sol''))"]
      failed_call_effects[where E = example_readonly_env and W = example_world and s = ?s2
        and doc = example_document and ver = "''0.7.6''" and e = OSError
        and a = example_solidity_args and files = ?f]
      failed_call_effects[where E = example_no_solc_env and W = example_world and a = ?a3
        and files = ?f and doc = "example_content_document ''contract C {}''"
        and e = "SolcxError ''SolcNotInstalled''"]
      failed_call_effects[where E = example_readonly_env and W = example_world
        and a = example_solidity_args and files = ?f
        and doc = "example_content_document ''contract C {}''" and ver = "''0.7.6''" and e = OSError]
      failed_call_effects[where E = example_env and W = example_world and a = ?a5 and source = ?c
        and e = "AuditlessSolcxException YulNotSupported"]
      failed_call_effects[where E = example_env and W = example_world and a = ?a6 and source = ?c
        and doc = ?d6 and ver = "''0.7.6''" and e = TypeError]
    by simp
qed

text \<open>
  A document that holds a \<open>Path\<close>: the artifact file is created, \<open>json.dump\<close> raises
  \<open>TypeError\<close>, and the unfinished file stays in the output directory.
\<close>

theorem unfinished_artifact_left_behind:
  "fst (compile_standard example_env (example_standard_args example_path_document (Some ''0.7.6''))
          example_world) = Inl TypeError \<and>
   calls (snd (compile_standard example_env (example_standard_args example_path_document (Some ''0.7.6''))
          example_world)) = [] \<and>
   build_info example_world (artifact_name example_env example_world) = None \<and>
   build_info (snd (compile_standard example_env (example_standard_args example_path_document (Some ''0.7.6''))
          example_world)) (artifact_name example_env example_world) = Some Truncated"
  by (simp add: compile_standard_def normaliser_defs example_defs writer_defs Let_def)

section \<open>Facts about the settings\<close>

lemma map_of_merge: "map_of (merge a b) = map_of a ++ map_of (rev b)"
  unfolding merge_def
proof (induction b arbitrary: a)
  case Nil
  then show ?case by simp
next
  case (Cons kv b)
  have "map_of (foldl (\<lambda>acc kv. AList.update (fst kv) (snd kv) acc) a (kv # b))
          = map_of (AList.update (fst kv) (snd kv) a) ++ map_of (rev b)"
    using Cons.IH by simp
  also have "\<dots> = map_of a ++ map_of (rev (kv # b))"
    by (cases kv) (simp add: update_conv' map_of_append)
  finally show ?case .
qed

lemma normalize_solidity_input_shape:
  assumes "normalize_solidity_input E name v = Inr d"
  shows "d = (case v of
                PNone \<Rightarrow> []
              | PList xs \<Rightarrow> [(name, PList (map (\<lambda>x. PStr (str_py E x)) xs))]
              | _ \<Rightarrow> [(name, PStr (str_py E v))])"
  using assms by (cases v) auto

lemma metadata_of_shape:
  "metadata_of h l = [] \<or> (\<exists>x. metadata_of h l = [(''metadata'', x)])"
  by (simp add: metadata_of_def ensure_dict_def set_in_def)

lemma optimizer_of_shape:
  "optimizer_of opt runs yul = [] \<or> (\<exists>x. optimizer_of opt runs yul = [(''optimizer'', x)])"
  by (simp add: optimizer_of_def ensure_dict_def set_in_def set_yul_def)

lemma resolve_urls_three:
  assumes "resolve_urls E [(''language'', l), (''sources'', PDict srcs), (''settings'', st)] = Inr doc"
  shows "\<exists>srcs'. resolve_keys E (map fst srcs) srcs = Inr srcs' \<and>
           doc = [(''language'', l), (''sources'', PDict srcs'), (''settings'', st)]"
  using assms by (auto simp: resolve_urls_def split: sum.splits)

lemma extract_combined_parts:
  assumes "extract_combined_json_from_compile_combined_json E a = Inr doc"
  shows "\<exists>srcs srcs' rm ev.
           initial_sources E (source_files a) (stdin a) = Inr srcs \<and>
           resolve_keys E (map fst srcs) srcs = Inr srcs' \<and>
           normalize_solidity_input E ''remappings'' (import_remappings a) = Inr rm \<and>
           normalize_solidity_input E ''evmVersion'' (evm_version a) = Inr ev \<and>
           doc = [(''language'', PStr ''Solidity''),
                  (''sources'', PDict srcs'),
                  (''settings'',
                   PDict (merge (merge (merge (merge (merge [] rm) ev)
                      (if revert_strings a = PNone then []
                       else [(''debug'', PDict [(''revertStrings'', revert_strings a)])]))
                      (metadata_of (metadata_hash a) (metadata_literal a)))
                      (optimizer_of (optimize a) (optimize_runs a) (optimize_yul a))))]"
proof -
  from assms obtain srcs where s: "initial_sources E (source_files a) (stdin a) = Inr srcs"
    by (auto simp: extract_combined_json_from_compile_combined_json_def split: sum.splits)
  from assms s have y: "yul_optimizations a = PNone"
    by (auto simp: extract_combined_json_from_compile_combined_json_def Let_def split: if_splits)
  from assms s y obtain rm where rm: "normalize_solidity_input E ''remappings'' (import_remappings a) = Inr rm"
    by (auto simp: extract_combined_json_from_compile_combined_json_def Let_def split: sum.splits)
  from assms s y rm obtain ev where ev: "normalize_solidity_input E ''evmVersion'' (evm_version a) = Inr ev"
    by (auto simp: extract_combined_json_from_compile_combined_json_def Let_def split: sum.splits)
  let ?st = "PDict (merge (merge (merge (merge (merge [] rm) ev)
                      (if revert_strings a = PNone then []
                       else [(''debug'', PDict [(''revertStrings'', revert_strings a)])]))
                      (metadata_of (metadata_hash a) (metadata_literal a)))
                      (optimizer_of (optimize a) (optimize_runs a) (optimize_yul a)))"
  from assms s y rm ev
  have "resolve_urls E [(''language'', PStr ''Solidity''), (''sources'', PDict srcs), (''settings'', ?st)]
          = Inr doc"
    by (simp add: extract_combined_json_from_compile_combined_json_def Let_def
        split: sum.splits if_splits)
  then obtain srcs' where "resolve_keys E (map fst srcs) srcs = Inr srcs'"
    "doc = [(''language'', PStr ''Solidity''), (''sources'', PDict srcs'), (''settings'', ?st)]"
    using resolve_urls_three by blast
  with s rm ev show ?thesis by blast
qed

lemma settings_remappings:
  assumes "extract_combined_json_from_compile_combined_json E a = Inr doc"
  shows "\<exists>settings rm.
           map_of doc ''settings'' = Some (PDict settings) \<and>
           normalize_solidity_input E ''remappings'' (import_remappings a) = Inr rm \<and>
           map_of settings ''remappings'' = map_of rm ''remappings''"
proof -
  from extract_combined_parts[OF assms] obtain srcs' rm ev where
    rm: "normalize_solidity_input E ''remappings'' (import_remappings a) = Inr rm" and
    ev: "normalize_solidity_input E ''evmVersion'' (evm_version a) = Inr ev" and
    doc: "doc = [(''language'', PStr ''Solidity''),
                  (''sources'', PDict srcs'),
                  (''settings'',
                   PDict (merge (merge (merge (merge (merge [] rm) ev)
                      (if revert_strings a = PNone then []
                       else [(''debug'', PDict [(''revertStrings'', revert_strings a)])]))
                      (metadata_of (metadata_hash a) (metadata_literal a)))
                      (optimizer_of (optimize a) (optimize_runs a) (optimize_yul a))))]"
    by blast
  have e: "map_of (rev ev) ''remappings'' = None"
    using normalize_solidity_input_shape[OF ev] by (cases "evm_version a") simp_all
  have m: "map_of (rev (metadata_of (metadata_hash a) (metadata_literal a))) ''remappings'' = None"
    using metadata_of_shape[of "metadata_hash a" "metadata_literal a"] by auto
  have p: "map_of (rev (optimizer_of (optimize a) (optimize_runs a) (optimize_yul a))) ''remappings'' = None"
    using optimizer_of_shape[of "optimize a" "optimize_runs a" "optimize_yul a"] by auto
  have r: "map_of (rev rm) ''remappings'' = map_of rm ''remappings''"
    using normalize_solidity_input_shape[OF rm] by (cases "import_remappings a") simp_all
  from doc e m p r rm show ?thesis
    by (simp add: map_of_merge map_add_def)
qed

section \<open>The remappings setting\<close>

text \<open>
  C4, as amended. In the document the files and source path produces, the settings
  bind \<open>remappings\<close> to the list of the stringified elements when
  \<open>import_remappings\<close> is a list, to the stringified value itself (a string, not a list)
  when it is a scalar, and to nothing when it is \<open>None\<close>.
\<close>

theorem remappings_setting:
  assumes "extract_combined_json_from_compile_combined_json E a = Inr doc"
  shows "\<exists>settings.
           map_of doc ''settings'' = Some (PDict settings) \<and>
           (import_remappings a = PList xs \<longrightarrow>
              map_of settings ''remappings'' = Some (PList (map (\<lambda>x. PStr (str_py E x)) xs))) \<and>
           (scalar (import_remappings a) \<longrightarrow>
              map_of settings ''remappings'' = Some (PStr (str_py E (import_remappings a)))) \<and>
           (import_remappings a = PNone \<longrightarrow> map_of settings ''remappings'' = None)"
proof -
  from settings_remappings[OF assms] obtain settings rm where
    s: "map_of doc ''settings'' = Some (PDict settings)" and
    rm: "normalize_solidity_input E ''remappings'' (import_remappings a) = Inr rm" and
    eq: "map_of settings ''remappings'' = map_of rm ''remappings''"
    by blast
  from normalize_solidity_input_shape[OF rm] eq
  have "(import_remappings a = PList xs \<longrightarrow>
              map_of settings ''remappings'' = Some (PList (map (\<lambda>x. PStr (str_py E x)) xs))) \<and>
           (scalar (import_remappings a) \<longrightarrow>
              map_of settings ''remappings'' = Some (PStr (str_py E (import_remappings a)))) \<and>
           (import_remappings a = PNone \<longrightarrow> map_of settings ''remappings'' = None)"
    by (cases "import_remappings a") (simp_all add: scalar_def)
  with s show ?thesis by blast
qed


theorem remappings_setting_witness:
  "extract_combined_json_from_compile_combined_json example_env
     (forwarded (example_solidity_args\<lparr>import_remappings := PList [PStr ''a=/x'', PPath ''b=/y'']\<rparr>)
        PNone (PStr ''contract C {}''))
     = Inr (example_stdin_document (PStr ''contract C {}'')
              [(''remappings'', PList [PStr ''a=/x'', PStr ''b=/y''])]) \<and>
   extract_combined_json_from_compile_combined_json example_env
     (forwarded (example_solidity_args\<lparr>import_remappings := PStr ''a=/x''\<rparr>)
        PNone (PStr ''contract C {}''))
     = Inr (example_stdin_document (PStr ''contract C {}'') [(''remappings'', PStr ''a=/x'')]) \<and>
   scalar (PStr ''a=/x'') \<and>
   extract_combined_json_from_compile_combined_json example_env
     (forwarded example_solidity_args PNone (PStr ''contract C {}''))
     = Inr (example_stdin_document (PStr ''contract C {}'') []) \<and>
   map_of [(''remappings'', PList [PStr ''a=/x'', PStr ''b=/y''])] ''remappings''
     = Some (PList [PStr ''a=/x'', PStr ''b=/y'']) \<and>
   map_of [(''remappings'', PStr ''a=/x'')] ''remappings'' = Some (PStr ''a=/x'')"
proof -
  let ?c = "PStr ''contract C {}''"
  let ?a1 = "forwarded (example_solidity_args\<lparr>import_remappings := PList [PStr ''a=/x'', PPath ''b=/y'']\<rparr>) PNone ?c"
  let ?a2 = "forwarded (example_solidity_args\<lparr>import_remappings := PStr ''a=/x''\<rparr>) PNone ?c"
  let ?a3 = "forwarded example_solidity_args PNone ?c"
  have h1: "extract_combined_json_from_compile_combined_json example_env ?a1
              = Inr (example_stdin_document ?c [(''remappings'', PList [PStr ''a=/x'', PStr ''b=/y''])])"
    by (simp add: normaliser_defs example_defs)
  have h2: "extract_combined_json_from_compile_combined_json example_env ?a2
              = Inr (example_stdin_document ?c [(''remappings'', PStr ''a=/x'')])"
    by (simp add: normaliser_defs example_defs)
  have h3: "extract_combined_json_from_compile_combined_json example_env ?a3
              = Inr (example_stdin_document ?c [])"
    by (simp add: normaliser_defs example_defs)
  have i: "import_remappings ?a1 = PList [PStr ''a=/x'', PPath ''b=/y'']"
    "scalar (import_remappings ?a2)" "import_remappings ?a2 = PStr ''a=/x''"
    "import_remappings ?a3 = PNone"
    by (simp_all add: forwarded_def example_solidity_args_def scalar_def)
  show ?thesis
    using h1 h2 h3 i
      remappings_setting[OF h1, where xs = "[PStr ''a=/x'', PPath ''b=/y'']"]
      remappings_setting[OF h2] remappings_setting[OF h3]
    by (simp add: example_stdin_document_def)
qed

text \<open>
  A scalar remapping is stored as a string, not as a one-element list; a mapping raises
  \<open>AttributeError\<close>, since a dict has no method \<open>iter\<close>.
\<close>

theorem scalar_remapping_is_not_a_list:
  "extract_combined_json_from_compile_combined_json example_env
     (forwarded (example_solidity_args\<lparr>import_remappings := PStr ''a=/x''\<rparr>)
        PNone (PStr ''contract C {}''))
     = Inr (example_stdin_document (PStr ''contract C {}'') [(''remappings'', PStr ''a=/x'')]) \<and>
   PStr ''a=/x'' \<noteq> PList [PStr ''a=/x''] \<and>
   extract_combined_json_from_compile_combined_json example_env
     (forwarded (example_solidity_args\<lparr>import_remappings := PDict [(''a'', PStr ''/x'')]\<rparr>)
        PNone (PStr ''contract C {}''))
     = Inl AttributeError"
  by (simp add: normaliser_defs example_defs)

section \<open>The Yul optimizer flag\<close>

text \<open>
  C5. With \<open>optimize_yul\<close> true, the document that \<open>compile_source\<close> and
  \<open>compile_files\<close> persist has empty settings: neither wrapper hands the flag to
  \<open>_compile_combined_json\<close>. The normaliser itself, given the flag, does set
  \<open>settings.optimizer.details.yul\<close>.
\<close>

theorem optimize_yul_not_forwarded:
  "optimize_yul (example_solidity_args\<lparr>optimize_yul := True\<rparr>) \<and>
   fst (compile_source example_env (PStr ''contract C {}'')
          (example_solidity_args\<lparr>optimize_yul := True\<rparr>) example_world) = Inr (PDict []) \<and>
   build_info (snd (compile_source example_env (PStr ''contract C {}'')
          (example_solidity_args\<lparr>optimize_yul := True\<rparr>) example_world))
       (artifact_name example_env example_world)
     = Some (Json (artifact (example_stdin_document (PStr ''contract C {}'') []) ''0.7.6'')) \<and>
   build_info (snd (compile_files example_env (PStr ''/a/b/contract.sol'')
          (example_solidity_args\<lparr>optimize_yul := True\<rparr>) example_world))
       (artifact_name example_env example_world)
     = Some (Json (artifact (example_content_document ''contract C {}'') ''0.7.6'')) \<and>
   extract_combined_json_from_compile_combined_json example_env
       ((forwarded example_solidity_args PNone (PStr ''contract C {}''))\<lparr>optimize_yul := True\<rparr>)
     = Inr (example_stdin_document (PStr ''contract C {}'')
              [(''optimizer'', PDict [(''details'', PDict [(''yul'', PBool True)])])])"
  by (simp add: compile_source_def compile_files_def compile_combined_json_def
      normaliser_defs example_defs writer_defs Let_def)


section \<open>Missing sources\<close>

lemma str_in_error: "str_in s v = Inl e \<Longrightarrow> e = TypeError"
  by (cases v) auto

lemma getitem_str_error: "getitem_str v k = Inl e \<Longrightarrow> e = TypeError \<or> e = KeyError"
  by (cases v) (auto split: option.splits)

lemma getitem_last_error:
  "getitem_last v = Inl e \<Longrightarrow> e = TypeError \<or> e = KeyError \<or> e = IndexError"
  by (cases v) (auto split: if_splits)

lemma is_remote_error: "is_remote v = Inl e \<Longrightarrow> e = TypeError"
  by (auto simp: is_remote_def split: sum.splits bool.splits dest: str_in_error)

lemma open_read_error: "open_read E v = Inl e \<Longrightarrow> e = TypeError \<or> e = OSError"
  by (cases v) (auto split: option.splits)

lemma resolve_entry_error:
  assumes "resolve_entry E fo = Inl e"
  shows "e \<noteq> AuditlessSolcxException NoSourceFiles"
proof
  assume n: "e = AuditlessSolcxException NoSourceFiles"
  from assms show False
    unfolding resolve_entry_def n
    by (auto split: sum.splits bool.splits
        dest: str_in_error getitem_str_error getitem_last_error is_remote_error open_read_error)
qed

lemma resolve_keys_error:
  "resolve_keys E ks srcs = Inl e \<Longrightarrow> e \<noteq> AuditlessSolcxException NoSourceFiles"
proof (induction ks arbitrary: srcs)
  case Nil
  then show ?case by simp
next
  case (Cons h rest)
  show ?case
  proof (cases "map_of srcs h")
    case None
    with Cons.prems show ?thesis by auto
  next
    case (Some fo)
    show ?thesis
    proof (cases "resolve_entry E fo")
      case (Inl e')
      with Cons.prems Some have "e = e'" by simp
      with Inl show ?thesis using resolve_entry_error by blast
    next
      case (Inr r)
      show ?thesis
      proof (cases r)
        case None
        with Cons.prems Some Inr have "resolve_keys E rest srcs = Inl e" by simp
        then show ?thesis by (rule Cons.IH)
      next
        case (Some v)
        with Cons.prems \<open>map_of srcs h = Some fo\<close> Inr
        have "resolve_keys E rest (AList.update h v srcs) = Inl e" by simp
        then show ?thesis by (rule Cons.IH)
      qed
    qed
  qed
qed

lemma sources_of_list_error: "sources_of_list paths acc = Inl e \<Longrightarrow> e = AttributeError"
proof (induction paths arbitrary: acc)
  case Nil
  then show ?case by simp
next
  case (Cons p paths)
  show ?case
  proof (cases "filename p")
    case (Inl e')
    with Cons.prems have "e = e'" by simp
    with Inl show ?thesis by (cases p) auto
  next
    case (Inr n)
    with Cons.prems show ?thesis by (auto dest: Cons.IH)
  qed
qed

lemma initial_sources_missing:
  "initial_sources E files stdin_v = Inl (AuditlessSolcxException NoSourceFiles)
     \<longleftrightarrow> files = PNone \<and> stdin_v = PNone"
  by (cases files; cases stdin_v) (auto simp: Let_def dest: sources_of_list_error)

lemma normalize_solidity_input_error:
  "normalize_solidity_input E name v = Inl e \<Longrightarrow> e = AttributeError"
  by (cases v) auto

lemma initial_sources_precedence:
  "files \<noteq> PNone \<Longrightarrow> initial_sources E files stdin_v = initial_sources E files PNone"
  by (cases files) simp_all

lemma extract_combined_missing:
  "extract_combined_json_from_compile_combined_json E a = Inl (AuditlessSolcxException NoSourceFiles)
     \<longleftrightarrow> source_files a = PNone \<and> stdin a = PNone"
proof
  assume both: "source_files a = PNone \<and> stdin a = PNone"
  then show "extract_combined_json_from_compile_combined_json E a
               = Inl (AuditlessSolcxException NoSourceFiles)"
    by (simp add: extract_combined_json_from_compile_combined_json_def)
next
  assume x: "extract_combined_json_from_compile_combined_json E a
               = Inl (AuditlessSolcxException NoSourceFiles)"
  show "source_files a = PNone \<and> stdin a = PNone"
  proof (cases "initial_sources E (source_files a) (stdin a)")
    case (Inl e)
    with x have "e = AuditlessSolcxException NoSourceFiles"
      by (simp add: extract_combined_json_from_compile_combined_json_def)
    with Inl show ?thesis by (simp add: initial_sources_missing)
  next
    case (Inr srcs)
    have False
      using x Inr
      unfolding extract_combined_json_from_compile_combined_json_def Let_def resolve_urls_def
      by (auto split: sum.splits if_splits
          dest: normalize_solidity_input_error resolve_keys_error)
    then show ?thesis ..
  qed
qed

text \<open>
  C6, as amended. Normalisation on the files and source path fails with the cause
  \<open>MissingSource\<close> exactly when \<open>source_files\<close> and \<open>stdin\<close> are both \<open>None\<close>. When
  \<open>source_files\<close> is given, \<open>stdin\<close> is not looked at.
\<close>

theorem missing_source_when_both_null:
  "(extract_combined_json_from_compile_combined_json E a = Inl (AuditlessSolcxException NoSourceFiles)
      \<longleftrightarrow> source_files a = PNone \<and> stdin a = PNone) \<and>
   cause_of (AuditlessSolcxException NoSourceFiles) = Some MissingSource \<and>
   (source_files a \<noteq> PNone \<longrightarrow>
      extract_combined_json_from_compile_combined_json E a
        = extract_combined_json_from_compile_combined_json E (a\<lparr>stdin := PNone\<rparr>))"
proof -
  have "extract_combined_json_from_compile_combined_json E a
          = extract_combined_json_from_compile_combined_json E (a\<lparr>stdin := PNone\<rparr>)"
    if "source_files a \<noteq> PNone"
  proof -
    have "initial_sources E (source_files a) (stdin a) = initial_sources E (source_files a) PNone"
      using that by (rule initial_sources_precedence)
    then show ?thesis
      unfolding extract_combined_json_from_compile_combined_json_def
      by (simp add: Let_def cong: sum.case_cong if_cong)
  qed
  then show ?thesis using extract_combined_missing by simp
qed

theorem missing_source_when_both_null_witness:
  "extract_combined_json_from_compile_combined_json example_env
       (forwarded example_solidity_args PNone PNone)
     = Inl (AuditlessSolcxException NoSourceFiles) \<and>
   extract_combined_json_from_compile_combined_json example_env
       (forwarded example_solidity_args (PStr ''/a/b/contract.sol'') (PStr ''contract D {}''))
     = extract_combined_json_from_compile_combined_json example_env
       (forwarded example_solidity_args (PStr ''/a/b/contract.sol'') PNone) \<and>
   source_files (forwarded example_solidity_args (PStr ''/a/b/contract.sol'') (PStr ''contract D {}''))
     \<noteq> PNone"
proof -
  let ?a = "forwarded example_solidity_args PNone PNone"
  let ?b = "forwarded example_solidity_args (PStr ''/a/b/contract.sol'') (PStr ''contract D {}'')"
  have h1: "source_files ?a = PNone \<and> stdin ?a = PNone" by (simp add: forwarded_def)
  have h2: "source_files ?b \<noteq> PNone" by (simp add: forwarded_def)
  have h3: "?b\<lparr>stdin := PNone\<rparr> = forwarded example_solidity_args (PStr ''/a/b/contract.sol'') PNone"
    by (simp add: forwarded_def)
  show ?thesis
    using h1 h2 h3 missing_source_when_both_null[where E = example_env and a = ?a]
      missing_source_when_both_null[where E = example_env and a = ?b]
    by simp
qed

text \<open>
  Both a file and a source string: the file is normalised, the string is ignored, and
  nothing fails.
\<close>

theorem both_sources_accepted:
  "source_files (forwarded example_solidity_args (PStr ''/a/b/contract.sol'') (PStr ''contract D {}''))
     \<noteq> PNone \<and>
   stdin (forwarded example_solidity_args (PStr ''/a/b/contract.sol'') (PStr ''contract D {}''))
     \<noteq> PNone \<and>
   extract_combined_json_from_compile_combined_json example_env
       (forwarded example_solidity_args (PStr ''/a/b/contract.sol'') (PStr ''contract D {}''))
     = Inr (example_content_document ''contract C {}'')"
  by (simp add: normaliser_defs example_defs)

end
